theory Spec2Isabelle
  imports Main "HOL-Library.AList"
begin

section \<open>Python objects\<close>

text \<open>
  The program is Python, so every value it handles is an object with an identity, a
  table of attributes (what \<open>hasattr\<close> and \<open>getattr\<close> see) and a content. The
  singletons \<open>None\<close>, \<open>inspect._empty\<close>, \<open>...\<close> (Ellipsis) and \<open>typing.Any\<close> are
  constructors of their own. The content says whether the object is an instance of
  \<open>dict\<close> (its items, in insertion order), an object with a \<open>model_dump()\<close> method
  (what the method returns, as pydantic models have), an integer or a string, or none of
  these.
\<close>

datatype 'a pycontent =
    Plain
  | IntVal int
  | StrVal string
  | DictItems "(string \<times> 'a) list"
  | ModelDump "(string \<times> 'a) list"

datatype pyobj =
    PyNone
  | PyEmpty
  | PyEllipsis
  | PyAny
  | PyObj nat "(string \<times> pyobj) list" "pyobj pycontent"

datatype pyerror = TypeError | AttributeError

text \<open>\<open>a is b\<close>: identity of objects, not equality of their contents.\<close>

fun py_is :: "pyobj \<Rightarrow> pyobj \<Rightarrow> bool" where
  "py_is (PyObj i _ _) (PyObj j _ _) = (i = j)"
| "py_is PyNone PyNone = True"
| "py_is PyEmpty PyEmpty = True"
| "py_is PyEllipsis PyEllipsis = True"
| "py_is PyAny PyAny = True"
| "py_is _ _ = False"

text \<open>\<open>a == b\<close> on the objects modelled here: equality of the contents.\<close>

fun py_content :: "pyobj \<Rightarrow> pyobj pycontent option" where
  "py_content (PyObj _ _ c) = Some c"
| "py_content _ = None"

definition py_eq :: "pyobj \<Rightarrow> pyobj \<Rightarrow> bool" where
  "py_eq a b = (py_is a b \<or> (py_content a \<noteq> None \<and> py_content a \<noteq> Some Plain
                               \<and> py_content a = py_content b))"

fun py_attrs :: "pyobj \<Rightarrow> (string \<times> pyobj) list" where
  "py_attrs (PyObj _ as _) = as"
| "py_attrs _ = []"

definition py_hasattr :: "pyobj \<Rightarrow> string \<Rightarrow> bool" where
  "py_hasattr obj nm = (map_of (py_attrs obj) nm \<noteq> None)"

text \<open>\<open>getattr(obj, nm, dflt)\<close>.\<close>

definition py_getattr :: "pyobj \<Rightarrow> string \<Rightarrow> pyobj \<Rightarrow> pyobj" where
  "py_getattr obj nm dflt = (case map_of (py_attrs obj) nm of None \<Rightarrow> dflt | Some v \<Rightarrow> v)"

text \<open>
  \<open>x if isinstance(x, dict) else x.model_dump()\<close>: the items of a dict, the dump of a
  model, and \<open>AttributeError\<close> for an object that is neither.
\<close>

fun as_data :: "pyobj \<Rightarrow> pyerror + (string \<times> pyobj) list" where
  "as_data (PyObj _ _ (DictItems kvs)) = Inr kvs"
| "as_data (PyObj _ _ (ModelDump kvs)) = Inr kvs"
| "as_data _ = Inl AttributeError"

subsection \<open>Strings\<close>

text \<open>\<open>s.split(".")\<close>: the empty string splits into one empty segment.\<close>

fun split_from :: "string \<Rightarrow> string \<Rightarrow> string list" where
  "split_from cur [] = [cur]"
| "split_from cur (c # cs) =
     (if c = CHR ''.'' then cur # split_from [] cs else split_from (cur @ [c]) cs)"

definition split_dot :: "string \<Rightarrow> string list" where
  "split_dot s = split_from [] s"

text \<open>\<open>".".join(parts)\<close>.\<close>

fun join_dot :: "string list \<Rightarrow> string" where
  "join_dot [] = []"
| "join_dot [p] = p"
| "join_dot (p # q # ps) = p @ ''.'' @ join_dot (q # ps)"

text \<open>\<open>s.lower()\<close> on ASCII identifiers.\<close>

definition lower_char :: "char \<Rightarrow> char" where
  "lower_char c =
     (case map_of (zip ''ABCDEFGHIJKLMNOPQRSTUVWXYZ'' ''abcdefghijklmnopqrstuvwxyz'') c of
        None \<Rightarrow> c | Some d \<Rightarrow> d)"

definition lower :: "string \<Rightarrow> string" where
  "lower s = map lower_char s"

text \<open>\<open>s.startswith("_")\<close>.\<close>

fun startswith_underscore :: "string \<Rightarrow> bool" where
  "startswith_underscore [] = False"
| "startswith_underscore (c # _) = (c = CHR ''_'')"

section \<open>Namespace path resolution (decorators.py, \<open>_resolve_nested_section\<close>)\<close>

text \<open>
  The loop over \<open>dotted_ns.split(".")\<close>: a segment that the object does not have as an
  attribute, or an object that is \<open>None\<close>, ends the walk with \<open>None\<close>.
\<close>

fun resolve_segments :: "pyobj \<Rightarrow> string list \<Rightarrow> pyobj" where
  "resolve_segments obj [] = obj"
| "resolve_segments obj (seg # segs) =
     (if py_is obj PyNone \<or> \<not> py_hasattr obj seg then PyNone
      else resolve_segments (py_getattr obj seg PyNone) segs)"

definition resolve_nested_section :: "pyobj \<Rightarrow> string \<Rightarrow> pyobj" where
  "resolve_nested_section cfg_model dotted_ns = resolve_segments cfg_model (split_dot dotted_ns)"

section \<open>Parameter classes (parameters.py)\<close>

text \<open>
  A class object as the program sees it: its \<open>__name__\<close>, which class it is
  (\<open>TunableParameters\<close>, \<open>object\<close>, or a class of the user), the names of its own
  \<open>__annotations__\<close> in order, its own attributes, and the two metadata attributes
  \<open>_tunablex_namespace\<close> and \<open>_tunablex_fields\<close> once registration has set them.
  A class is given by its \<open>__mro__\<close>, most specific first. The hierarchies modelled are
  single-inheritance chains, so the \<open>__mro__\<close> of a base is the rest of the list from
  that base on.
\<close>

datatype class_identity = TunableParametersClass | ObjectClass | UserClass

record pyclass_level =
  cls_name :: string
  cls_identity :: class_identity
  cls_annotations :: "string list"
  cls_dict :: "(string \<times> pyobj) list"
  tunablex_namespace :: "string option"
  tunablex_fields :: "(string \<times> pyobj) list option"

type_synonym pyclass = "pyclass_level list"

text \<open>\<open>base is TunableParameters or base is object\<close>.\<close>

definition is_root_marker :: "pyclass_level \<Rightarrow> bool" where
  "is_root_marker base = (cls_identity base = TunableParametersClass \<or> cls_identity base = ObjectClass)"

text \<open>\<open>getattr(cls, nm, dflt)\<close> on a class: the first level of the \<open>__mro__\<close> that has it.\<close>

fun class_getattr :: "pyclass \<Rightarrow> string \<Rightarrow> pyobj \<Rightarrow> pyobj" where
  "class_getattr [] nm dflt = dflt"
| "class_getattr (l # ls) nm dflt =
     (case map_of (cls_dict l) nm of Some v \<Rightarrow> v | None \<Rightarrow> class_getattr ls nm dflt)"

text \<open>\<open>setattr(cls, nm, v)\<close> writes the class's own dictionary.\<close>

fun class_setattr :: "pyclass \<Rightarrow> string \<Rightarrow> pyobj \<Rightarrow> pyclass" where
  "class_setattr [] nm v = []"
| "class_setattr (l # ls) nm v = l\<lparr>cls_dict := AList.update nm v (cls_dict l)\<rparr> # ls"

text \<open>The classes of \<open>cls.__mro__\<close>, each as a class (its own \<open>__mro__\<close>).\<close>

fun mro_bases :: "pyclass \<Rightarrow> pyclass list" where
  "mro_bases [] = []"
| "mro_bases (l # ls) = (l # ls) # mro_bases ls"

subsection \<open>\<open>_collect_fields_from_class\<close>\<close>

text \<open>The inner loop \<open>for name in annotations\<close> at one base.\<close>

fun collect_annotations :: "pyclass \<Rightarrow> string list \<Rightarrow> (string \<times> pyobj) list \<Rightarrow> (string \<times> pyobj) list" where
  "collect_annotations base [] flds = flds"
| "collect_annotations base (nm # nms) flds =
     (if startswith_underscore nm then collect_annotations base nms flds
      else (let default_value = class_getattr base nm PyNone
            in collect_annotations base nms
                 (if \<not> py_is default_value PyNone then AList.update nm default_value flds
                  else flds)))"

text \<open>The outer loop \<open>for base in reversed(cls.__mro__)\<close>.\<close>

fun collect_bases :: "pyclass list \<Rightarrow> (string \<times> pyobj) list \<Rightarrow> (string \<times> pyobj) list" where
  "collect_bases [] flds = flds"
| "collect_bases ([] # bases) flds = collect_bases bases flds"
| "collect_bases ((l # ls) # bases) flds =
     (if is_root_marker l then collect_bases bases flds
      else collect_bases bases (collect_annotations (l # ls) (cls_annotations l) flds))"

definition collect_fields_from_class :: "pyclass \<Rightarrow> (string \<times> pyobj) list" where
  "collect_fields_from_class cls = collect_bases (rev (mro_bases cls)) []"

subsection \<open>\<open>_calculate_namespace_from_class\<close>\<close>

text \<open>The first loop: the names along the \<open>__mro__\<close>, up to the \<open>break\<close>.\<close>

fun hierarchy_names :: "pyclass \<Rightarrow> string list" where
  "hierarchy_names [] = []"
| "hierarchy_names (base # bases) =
     (if is_root_marker base then [] else cls_name base # hierarchy_names bases)"

text \<open>The second loop: lower-cased names, every name that lower-cases to \<open>main\<close> skipped.\<close>

fun namespace_parts :: "string list \<Rightarrow> string list" where
  "namespace_parts [] = []"
| "namespace_parts (class_name # rest) =
     (if lower class_name = ''main'' then namespace_parts rest
      else lower class_name # namespace_parts rest)"

definition calculate_namespace_from_class :: "pyclass \<Rightarrow> string" where
  "calculate_namespace_from_class cls =
     (let hierarchy = rev (hierarchy_names cls);
          parts = namespace_parts hierarchy
      in if parts = [] then [] else join_dot parts)"

subsection \<open>Registration of a class\<close>

definition setup_class_attribute_access :: "pyclass \<Rightarrow> string \<Rightarrow> pyobj \<Rightarrow> pyclass" where
  "setup_class_attribute_access cls field_name field_info =
     (let default_value = (if py_hasattr field_info ''default''
                           then py_getattr field_info ''default'' PyNone else field_info)
      in class_setattr cls field_name default_value)"

fun store_metadata :: "pyclass \<Rightarrow> string \<Rightarrow> (string \<times> pyobj) list \<Rightarrow> pyclass" where
  "store_metadata [] ns flds = []"
| "store_metadata (l # ls) ns flds =
     l\<lparr>tunablex_namespace := Some ns, tunablex_fields := Some flds\<rparr> # ls"

definition register_parameter_class :: "pyclass \<Rightarrow> pyclass" where
  "register_parameter_class cls =
     (let flds = collect_fields_from_class cls;
          ns = calculate_namespace_from_class cls
      in fold (\<lambda>(field_name, field_info) c. setup_class_attribute_access c field_name field_info)
           flds (store_metadata cls ns flds))"

text \<open>\<open>getattr(cls, "_tunablex_namespace", "")\<close>.\<close>

fun get_parameter_class_namespace :: "pyclass \<Rightarrow> string" where
  "get_parameter_class_namespace [] = []"
| "get_parameter_class_namespace (l # ls) =
     (case tunablex_namespace l of Some ns \<Rightarrow> ns | None \<Rightarrow> get_parameter_class_namespace ls)"

text \<open>\<open>getattr(cls, "_tunablex_fields", {})\<close>.\<close>

fun get_parameter_class_fields :: "pyclass \<Rightarrow> (string \<times> pyobj) list" where
  "get_parameter_class_fields [] = []"
| "get_parameter_class_fields (l # ls) =
     (case tunablex_fields l of Some flds \<Rightarrow> flds | None \<Rightarrow> get_parameter_class_fields ls)"

text \<open>
  A class statement \<open>class Name(Parent): ...\<close> with \<open>Parent\<close> a parameter class:
  \<open>__init_subclass__\<close> registers the new class as soon as its body has run.
\<close>

definition class_statement ::
  "string \<Rightarrow> string list \<Rightarrow> (string \<times> pyobj) list \<Rightarrow> pyclass \<Rightarrow> pyclass" where
  "class_statement nm anns body parent =
     register_parameter_class
       (\<lparr>cls_name = nm, cls_identity = UserClass, cls_annotations = anns, cls_dict = body,
         tunablex_namespace = None, tunablex_fields = None\<rparr> # parent)"

text \<open>The two classes every chain ends in; their attributes all start with an underscore.\<close>

definition TunableParameters :: pyclass where
  "TunableParameters =
     [\<lparr>cls_name = ''TunableParameters'', cls_identity = TunableParametersClass,
        cls_annotations = [], cls_dict = [], tunablex_namespace = None, tunablex_fields = None\<rparr>,
      \<lparr>cls_name = ''object'', cls_identity = ObjectClass,
        cls_annotations = [], cls_dict = [], tunablex_namespace = None, tunablex_fields = None\<rparr>]"

section \<open>Functions and calls\<close>

text \<open>
  What \<open>inspect.signature(fn).parameters\<close> gives for each parameter: its name, its kind
  and its default (\<open>inspect._empty\<close> when it declares none). A function has an identity,
  its signature, its annotations (as \<open>_eval_ann\<close> returns them) and the values of its
  module's globals, in the order of the module's dictionary.
\<close>

datatype param_kind =
  POSITIONAL_ONLY | POSITIONAL_OR_KEYWORD | VAR_POSITIONAL | KEYWORD_ONLY | VAR_KEYWORD

record param =
  p_name :: string
  p_kind :: param_kind
  p_default :: pyobj

datatype pyglobal = GClass pyclass | GValue pyobj

record pyfunction =
  fn_id :: nat
  fn_signature :: "param list"
  fn_annotations :: "(string \<times> pyobj) list"
  fn_globals :: "(string \<times> pyglobal) list"

text \<open>
  How the body of a function is entered: the value bound to each named parameter, the
  surplus positional arguments (\<open>*args\<close>) and the surplus keyword arguments
  (\<open>**kwargs\<close>). The body itself is not modelled: a call returns this binding, or the
  \<open>TypeError\<close> Python raises before the body runs.
\<close>

record invocation =
  bound :: "(string \<times> pyobj) list"
  star_args :: "pyobj list"
  star_kwargs :: "(string \<times> pyobj) list"

definition positional_params :: "param list \<Rightarrow> param list" where
  "positional_params sg =
     filter (\<lambda>p. p_kind p = POSITIONAL_ONLY \<or> p_kind p = POSITIONAL_OR_KEYWORD) sg"

definition keyword_names :: "param list \<Rightarrow> string list" where
  "keyword_names sg =
     map p_name (filter (\<lambda>p. p_kind p = POSITIONAL_OR_KEYWORD \<or> p_kind p = KEYWORD_ONLY) sg)"

fun bind_keywords :: "param list \<Rightarrow> (string \<times> pyobj) list \<Rightarrow> invocation \<Rightarrow> pyerror + invocation" where
  "bind_keywords sg [] ivk = Inr ivk"
| "bind_keywords sg ((k, v) # kws) ivk =
     (if k \<in> set (keyword_names sg) then
        (if k \<in> set (map fst (bound ivk)) then Inl TypeError
         else bind_keywords sg kws (ivk\<lparr>bound := bound ivk @ [(k, v)]\<rparr>))
      else if VAR_KEYWORD \<in> set (map p_kind sg) then
        bind_keywords sg kws (ivk\<lparr>star_kwargs := star_kwargs ivk @ [(k, v)]\<rparr>)
      else Inl TypeError)"

fun bind_defaults :: "param list \<Rightarrow> invocation \<Rightarrow> pyerror + invocation" where
  "bind_defaults [] ivk = Inr ivk"
| "bind_defaults (p # ps) ivk =
     (if p_kind p = VAR_POSITIONAL \<or> p_kind p = VAR_KEYWORD
         \<or> p_name p \<in> set (map fst (bound ivk)) then bind_defaults ps ivk
      else if py_is (p_default p) PyEmpty then Inl TypeError
      else bind_defaults ps (ivk\<lparr>bound := bound ivk @ [(p_name p, p_default p)]\<rparr>))"

definition bind_arguments ::
  "param list \<Rightarrow> pyobj list \<Rightarrow> (string \<times> pyobj) list \<Rightarrow> pyerror + invocation" where
  "bind_arguments sg args kwargs =
     (let pos = positional_params sg in
      if length pos < length args \<and> VAR_POSITIONAL \<notin> set (map p_kind sg) then Inl TypeError
      else (case bind_keywords sg kwargs
                   \<lparr>bound = zip (map p_name pos) args, star_args = drop (length pos) args,
                    star_kwargs = []\<rparr> of
              Inl err \<Rightarrow> Inl err
            | Inr ivk \<Rightarrow> bind_defaults sg ivk))"

text \<open>
  The call \<open>fn(*args, **injected, **kwargs)\<close>: a key that both mappings hold is a
  \<open>TypeError\<close> (multiple values for a keyword argument), raised before \<open>fn\<close> is entered.
  \<open>fn(*args, **kwargs)\<close> is the call with nothing injected.
\<close>

definition call_with ::
  "pyfunction \<Rightarrow> pyobj list \<Rightarrow> (string \<times> pyobj) list \<Rightarrow> (string \<times> pyobj) list
     \<Rightarrow> pyerror + invocation" where
  "call_with f args injected kwargs =
     (if \<exists>k \<in> set (map fst injected). k \<in> set (map fst kwargs) then Inl TypeError
      else bind_arguments (fn_signature f) args (injected @ kwargs))"

section \<open>The registry\<close>

record TunableEntry =
  fn :: pyfunction
  model :: "(string \<times> pyobj \<times> pyobj) list"
  sig :: "param list"
  namespace :: string
  apps :: "string set"

type_synonym registry = "TunableEntry list"

text \<open>
  Modelled from the spec: \<open>registry.py\<close> (the class of \<open>REGISTRY\<close>, its \<open>register\<close>
  method and its \<open>by_namespace\<close> mapping) is not among the sources. The spec has the
  registry an append-only collection of entries, where several entries may share a
  function or a namespace; \<open>by_namespace.values()\<close>, which the wrapper iterates, gives
  the entries in registration order.
\<close>

definition register :: "registry \<Rightarrow> TunableEntry \<Rightarrow> registry" where
  "register reg e = reg @ [e]"

definition by_namespace_values :: "registry \<Rightarrow> TunableEntry list" where
  "by_namespace_values reg = reg"

section \<open>The decorator (decorators.py)\<close>

subsection \<open>\<open>_infer_namespace_from_class_attribute\<close>\<close>

text \<open>
  \<open>parameters.py\<close> is part of the package, so its import succeeds and
  \<open>_PARAMETERS_AVAILABLE\<close> is true: the function's first \<open>return None\<close> is never taken.

  \<open>dir(obj)\<close> of a class: the attribute names of the class and of its bases (Python
  sorts them; the scan below only asks whether some name matches).
\<close>

definition dir_names :: "pyclass \<Rightarrow> string list" where
  "dir_names obj = concat (map (\<lambda>l. map fst (cls_dict l)) obj)"

text \<open>The loop \<open>for attr_name in dir(obj)\<close>: True when it reaches the \<open>return\<close>.\<close>

fun scan_attributes :: "pyclass \<Rightarrow> pyobj \<Rightarrow> string list \<Rightarrow> bool" where
  "scan_attributes obj default_value [] = False"
| "scan_attributes obj default_value (attr_name # rest) =
     (if \<not> startswith_underscore attr_name
         \<and> py_is (class_getattr obj attr_name PyNone) default_value then True
      else scan_attributes obj default_value rest)"

text \<open>
  \<open>isinstance(obj, type) and issubclass(obj, TunableParameters) and obj is not
  TunableParameters\<close>.
\<close>

fun is_parameter_class :: "pyglobal \<Rightarrow> bool" where
  "is_parameter_class (GValue _) = False"
| "is_parameter_class (GClass []) = False"
| "is_parameter_class (GClass (l # ls)) =
     (TunableParametersClass \<in> set (map cls_identity (l # ls))
      \<and> cls_identity l \<noteq> TunableParametersClass)"

fun global_class :: "pyglobal \<Rightarrow> pyclass" where
  "global_class (GClass c) = c"
| "global_class (GValue _) = []"

text \<open>The loop \<open>for obj in fn_globals.values()\<close>.\<close>

fun scan_globals :: "pyobj \<Rightarrow> pyglobal list \<Rightarrow> string option" where
  "scan_globals default_value [] = None"
| "scan_globals default_value (obj # rest) =
     (if is_parameter_class obj
         \<and> scan_attributes (global_class obj) default_value (dir_names (global_class obj))
      then Some (get_parameter_class_namespace (global_class obj))
      else scan_globals default_value rest)"

definition infer_namespace_from_class_attribute ::
  "pyobj \<Rightarrow> (string \<times> pyglobal) list \<Rightarrow> string option" where
  "infer_namespace_from_class_attribute default_value globs =
     (if py_hasattr default_value ''__self__'' then None
      else scan_globals default_value (map snd globs))"

subsection \<open>\<open>tunable\<close>\<close>

text \<open>
  The arguments of \<open>tunable\<close>: the names to select (\<open>*include\<close>), \<open>namespace\<close>
  (\<open>None\<close> or a string), \<open>mode\<close>, \<open>exclude\<close> (\<open>None\<close> and the empty list behave
  alike: \<open>set(exclude or ())\<close>) and \<open>apps\<close>.
\<close>

definition is_selected :: "string list \<Rightarrow> string \<Rightarrow> string list \<Rightarrow> param \<Rightarrow> bool" where
  "is_selected incl mode excl p =
     (if set incl \<noteq> {} then p_name p \<in> set incl
      else if mode = ''exclude'' \<and> set excl \<noteq> {}
        then \<not> py_is (p_default p) PyEmpty \<and> p_name p \<notin> set excl
      else \<not> py_is (p_default p) PyEmpty)"

text \<open>\<open>_eval_ann(raw_anns.get(name, Any))\<close>.\<close>

definition eval_ann :: "pyfunction \<Rightarrow> string \<Rightarrow> pyobj" where
  "eval_ann f nm = (case map_of (fn_annotations f) nm of None \<Rightarrow> PyAny | Some a \<Rightarrow> a)"

text \<open>\<open>p.default if p.default is not inspect._empty else ...\<close>.\<close>

definition schema_default :: "param \<Rightarrow> pyobj" where
  "schema_default p = (if \<not> py_is (p_default p) PyEmpty then p_default p else PyEllipsis)"

text \<open>The loop that fills \<open>fields\<close> (lines 101 to 114, and again 153 to 166).\<close>

fun select_fields ::
  "string list \<Rightarrow> string \<Rightarrow> string list \<Rightarrow> pyfunction \<Rightarrow> param list
     \<Rightarrow> (string \<times> pyobj \<times> pyobj) list \<Rightarrow> (string \<times> pyobj \<times> pyobj) list" where
  "select_fields incl mode excl f [] flds = flds"
| "select_fields incl mode excl f (p # ps) flds =
     (if p_kind p = VAR_POSITIONAL \<or> p_kind p = VAR_KEYWORD
        then select_fields incl mode excl f ps flds
      else if \<not> is_selected incl mode excl p then select_fields incl mode excl f ps flds
      else select_fields incl mode excl f ps
             (AList.update (p_name p) (eval_ann f (p_name p), schema_default p) flds))"

text \<open>\<open>_infer_namespace_from_class_attribute(p.default, fn.__globals__) or ""\<close>.\<close>

definition param_namespace :: "pyfunction \<Rightarrow> param \<Rightarrow> string" where
  "param_namespace f p =
     (case infer_namespace_from_class_attribute (p_default p) (fn_globals f) of
        None \<Rightarrow> [] | Some ns \<Rightarrow> ns)"

text \<open>The loop that fills \<open>namespace_groups\<close> (lines 121 to 141).\<close>

fun group_by_namespace ::
  "string list \<Rightarrow> string \<Rightarrow> string list \<Rightarrow> pyfunction \<Rightarrow> param list
     \<Rightarrow> (string \<times> (string \<times> pyobj \<times> pyobj) list) list
     \<Rightarrow> (string \<times> (string \<times> pyobj \<times> pyobj) list) list" where
  "group_by_namespace incl mode excl f [] groups = groups"
| "group_by_namespace incl mode excl f (p # ps) groups =
     (if p_kind p = VAR_POSITIONAL \<or> p_kind p = VAR_KEYWORD
        then group_by_namespace incl mode excl f ps groups
      else if \<not> is_selected incl mode excl p then group_by_namespace incl mode excl f ps groups
      else (let param_ns = param_namespace f p;
                grp = (case map_of groups param_ns of None \<Rightarrow> [] | Some g \<Rightarrow> g)
            in group_by_namespace incl mode excl f ps
                 (AList.update param_ns
                    (AList.update (p_name p) (eval_ann f (p_name p), schema_default p) grp)
                    groups)))"

text \<open>
  The loop that registers one entry per group (lines 144 to 148). The pydantic model
  that \<open>create_model\<close> builds is represented by the table of fields it is built from.
\<close>

fun register_groups ::
  "pyfunction \<Rightarrow> string list \<Rightarrow> (string \<times> (string \<times> pyobj \<times> pyobj) list) list
     \<Rightarrow> registry \<Rightarrow> registry" where
  "register_groups f app_tags [] reg = reg"
| "register_groups f app_tags ((ns, ns_fields) # rest) reg =
     register_groups f app_tags rest
       (if ns_fields \<noteq> [] then
          register reg \<lparr>fn = f, model = ns_fields, sig = fn_signature f, namespace = ns,
                        apps = set app_tags\<rparr>
        else reg)"

text \<open>
  What decorating \<open>f\<close> does to the registry. The wrapper it returns is \<open>wrapper\<close>
  below, closed over \<open>f\<close> and \<open>namespace\<close>.
\<close>

definition tunable ::
  "string list \<Rightarrow> string option \<Rightarrow> string \<Rightarrow> string list \<Rightarrow> string list
     \<Rightarrow> pyfunction \<Rightarrow> registry \<Rightarrow> registry" where
  "tunable incl namespace_arg mode excl app_tags f reg =
     (let flds = select_fields incl mode excl f (fn_signature f) [] in
      case namespace_arg of
        None \<Rightarrow>
          register_groups f app_tags
            (group_by_namespace incl mode excl f (fn_signature f) []) reg
      | Some ns \<Rightarrow>
          register reg
            \<lparr>fn = f, model = select_fields incl mode excl f (fn_signature f) flds,
             sig = fn_signature f, namespace = ns, apps = set app_tags\<rparr>)"

subsection \<open>\<open>wrapper\<close>\<close>

text \<open>
  \<open>for k, v in data.items(): if k in sig.parameters: combined_params[k] = v\<close>; the
  dictionary comprehension that builds \<open>filtered\<close> is the same loop from the empty
  dictionary.
\<close>

fun collect_params ::
  "param list \<Rightarrow> (string \<times> pyobj) list \<Rightarrow> (string \<times> pyobj) list \<Rightarrow> (string \<times> pyobj) list" where
  "collect_params sg [] combined = combined"
| "collect_params sg ((k, v) # kvs) combined =
     collect_params sg kvs
       (if k \<in> set (map p_name sg) then AList.update k v combined else combined)"

text \<open>
  One namespace's contribution (lines 197 to 202, and 205 to 210): nothing when the
  section is \<open>None\<close>, \<open>AttributeError\<close> when it is neither a dict nor has \<open>model_dump\<close>.
\<close>

definition collect_section ::
  "pyfunction \<Rightarrow> pyobj \<Rightarrow> string \<Rightarrow> (string \<times> pyobj) list \<Rightarrow> pyerror + (string \<times> pyobj) list" where
  "collect_section f app_cfg ns combined =
     (let sect = resolve_nested_section app_cfg ns in
      if \<not> py_is sect PyNone then
        (case as_data sect of
           Inl err \<Rightarrow> Inl err
         | Inr data \<Rightarrow> Inr (collect_params (fn_signature f) data combined))
      else Inr combined)"

text \<open>The loop \<open>for entry in REGISTRY.by_namespace.values()\<close>.\<close>

fun collect_entries ::
  "pyfunction \<Rightarrow> pyobj \<Rightarrow> TunableEntry list \<Rightarrow> (string \<times> pyobj) list
     \<Rightarrow> pyerror + (string \<times> pyobj) list" where
  "collect_entries f app_cfg [] combined = Inr combined"
| "collect_entries f app_cfg (e # es) combined =
     (if fn_id (fn e) = fn_id f then
        (case collect_section f app_cfg (namespace e) combined of
           Inl err \<Rightarrow> Inl err
         | Inr combined' \<Rightarrow> collect_entries f app_cfg es combined')
      else collect_entries f app_cfg es combined)"

text \<open>
  The wrapped callable. \<open>active\<close> is what \<open>_active_cfg.get()\<close> returns (\<open>context.py\<close>
  is not among the sources): the active configuration, or \<open>None\<close>.
\<close>

definition wrapper ::
  "pyfunction \<Rightarrow> string option \<Rightarrow> registry \<Rightarrow> pyobj \<Rightarrow> pyobj list \<Rightarrow> pyobj
     \<Rightarrow> (string \<times> pyobj) list \<Rightarrow> pyerror + invocation" where
  "wrapper f namespace_arg reg active args cfg kwargs =
     (if \<not> py_is cfg PyNone then
        (case as_data cfg of
           Inl err \<Rightarrow> Inl err
         | Inr data \<Rightarrow> call_with f args (collect_params (fn_signature f) data []) kwargs)
      else if \<not> py_is active PyNone then
        (case (case namespace_arg of
                 None \<Rightarrow> collect_entries f active (by_namespace_values reg) []
               | Some ns \<Rightarrow> collect_section f active ns []) of
           Inl err \<Rightarrow> Inl err
         | Inr combined_params \<Rightarrow>
             if combined_params \<noteq> [] then call_with f args combined_params kwargs
             else call_with f args [] kwargs)
      else call_with f args [] kwargs)"

section \<open>Specification functions\<close>

text \<open>
  Written from the words of the specification, to be compared with the functions above.
  A level declares a value for a field when it annotates the name, the name does not start
  with an underscore, and the value the class has for it is not \<open>None\<close>; the most specific
  declaration is the one of the first such level along the \<open>__mro__\<close>.
\<close>

definition declares_value :: "pyclass_level \<Rightarrow> pyclass \<Rightarrow> string \<Rightarrow> bool" where
  "declares_value l ls nm =
     (\<not> is_root_marker l \<and> nm \<in> set (cls_annotations l) \<and> \<not> startswith_underscore nm
      \<and> class_getattr (l # ls) nm PyNone \<noteq> PyNone)"

fun most_specific_declaration :: "pyclass \<Rightarrow> string \<Rightarrow> pyobj option" where
  "most_specific_declaration [] nm = None"
| "most_specific_declaration (l # ls) nm =
     (if declares_value l ls nm then Some (class_getattr (l # ls) nm PyNone)
      else most_specific_declaration ls nm)"

text \<open>The names of the parameters that the groups of \<open>namespace_groups\<close> hold.\<close>

definition group_keys :: "(string \<times> (string \<times> pyobj \<times> pyobj) list) list \<Rightarrow> string set" where
  "group_keys groups = (\<Union>g \<in> snd ` set groups. fst ` set g)"

text \<open>
  The value \<open>_setup_class_attribute_access\<close> stores for a field: \<open>field_info.default\<close>
  when the object has that attribute, else the object itself.
\<close>

definition field_default :: "pyobj \<Rightarrow> pyobj" where
  "field_default field_info =
     (if py_hasattr field_info ''default'' then py_getattr field_info ''default'' PyNone
      else field_info)"

text \<open>
  A class has \<open>v\<close> as a public attribute when some name of \<open>dir(cls)\<close> that does not
  start with an underscore has the very object \<open>v\<close> as its value; the first matching
  class is the first parameter class among the globals that has.
\<close>

definition has_public_attribute :: "pyclass \<Rightarrow> pyobj \<Rightarrow> bool" where
  "has_public_attribute cls v =
     (\<exists>a \<in> set (dir_names cls). \<not> startswith_underscore a \<and> py_is (class_getattr cls a PyNone) v)"

definition first_matching_class :: "pyobj \<Rightarrow> pyglobal list \<Rightarrow> pyglobal option" where
  "first_matching_class v gs =
     find (\<lambda>g. is_parameter_class g \<and> has_public_attribute (global_class g) v) gs"

text \<open>
  The values the configuration supplies to a call, as the wrapper computes them: from the
  override \<open>cfg\<close> when one is given, else from the active configuration, else none.
  \<open>wrapper\<close> is then the call \<open>fn(*args, **values, **kwargs)\<close>
  (lemma \<open>wrapper_config_values\<close> below). The namespaces a call consults are the
  namespaces of the entries the function owns, or the explicit namespace alone.
\<close>

definition config_values ::
  "pyfunction \<Rightarrow> string option \<Rightarrow> registry \<Rightarrow> pyobj \<Rightarrow> pyobj
     \<Rightarrow> pyerror + (string \<times> pyobj) list" where
  "config_values f namespace_arg reg active cfg =
     (if cfg \<noteq> PyNone then
        (case as_data cfg of
           Inl err \<Rightarrow> Inl err
         | Inr data \<Rightarrow> Inr (collect_params (fn_signature f) data []))
      else if active \<noteq> PyNone then
        (case namespace_arg of
           None \<Rightarrow> collect_entries f active (by_namespace_values reg) []
         | Some ns \<Rightarrow> collect_section f active ns [])
      else Inr [])"

definition consulted_namespaces :: "pyfunction \<Rightarrow> string option \<Rightarrow> registry \<Rightarrow> string list" where
  "consulted_namespaces f namespace_arg reg =
     (case namespace_arg of
        None \<Rightarrow> map namespace (filter (\<lambda>e. fn_id (fn e) = fn_id f) (by_namespace_values reg))
      | Some ns \<Rightarrow> [ns])"

section \<open>The example application\<close>

text \<open>
  The objects of the example pipeline (\<open>examples/myapp/pipeline_params.py\<close> and the
  hierarchy the docstring of \<open>parameters.py\<close> describes). Every object has an identity
  of its own. An integer, a dict and a pydantic \<open>Field\<close> holding a default are given
  with the attributes that matter here (\<open>default\<close> for a \<open>Field\<close>).
\<close>

definition int_obj :: "nat \<Rightarrow> int \<Rightarrow> pyobj" where
  "int_obj i v = PyObj i [] (IntVal v)"

definition dict_obj :: "nat \<Rightarrow> (string \<times> pyobj) list \<Rightarrow> pyobj" where
  "dict_obj i kvs = PyObj i [] (DictItems kvs)"

definition field_obj :: "nat \<Rightarrow> pyobj \<Rightarrow> pyobj" where
  "field_obj i d = PyObj i [(''default'', d)] Plain"

text \<open>
  The classes \<open>Main(TunableParameters)\<close>, \<open>Model(Main)\<close> and \<open>Preprocess(Model)\<close>,
  each declaring one field, as their class statements leave them.
\<close>

definition class_body :: "string \<Rightarrow> string list \<Rightarrow> (string \<times> pyobj) list \<Rightarrow> pyclass_level" where
  "class_body nm anns body =
     \<lparr>cls_name = nm, cls_identity = UserClass, cls_annotations = anns, cls_dict = body,
      tunablex_namespace = None, tunablex_fields = None\<rparr>"

definition Main_cls :: pyclass where
  "Main_cls = class_statement ''Main'' [''root_param'']
                [(''root_param'', field_obj 10 (int_obj 1 7))] TunableParameters"

definition Model_cls :: pyclass where
  "Model_cls = class_statement ''Model'' [''hidden_units'']
                 [(''hidden_units'', field_obj 11 (int_obj 2 128))] Main_cls"

definition Preprocess_cls :: pyclass where
  "Preprocess_cls = class_statement ''Preprocess'' [''dropna'']
                      [(''dropna'', field_obj 12 (int_obj 3 1))] Model_cls"

text \<open>
  \<open>def build_model(hidden_units=Model.hidden_units, root_param=Main.root_param)\<close>, in a
  module that has imported \<open>Main\<close> and \<open>Model\<close>, and the registry after
  \<open>@tunable("hidden_units", "root_param", apps=("train",))\<close> has decorated it.
\<close>

definition build_model :: pyfunction where
  "build_model =
     \<lparr>fn_id = 1,
      fn_signature =
        [\<lparr>p_name = ''hidden_units'', p_kind = POSITIONAL_OR_KEYWORD,
           p_default = class_getattr Model_cls ''hidden_units'' PyNone\<rparr>,
         \<lparr>p_name = ''root_param'', p_kind = POSITIONAL_OR_KEYWORD,
           p_default = class_getattr Main_cls ''root_param'' PyNone\<rparr>],
      fn_annotations = [],
      fn_globals = [(''Main'', GClass Main_cls), (''Model'', GClass Model_cls)]\<rparr>"

definition build_model_registry :: registry where
  "build_model_registry =
     tunable [''hidden_units'', ''root_param''] None ''include'' [] [''train''] build_model []"

text \<open>
  \<open>def fit(hidden_units=Model.hidden_units, dropna=Preprocess.dropna)\<close>, decorated with
  \<open>@tunable("hidden_units", "dropna")\<close>.
\<close>

definition fit :: pyfunction where
  "fit =
     \<lparr>fn_id = 4,
      fn_signature =
        [\<lparr>p_name = ''hidden_units'', p_kind = POSITIONAL_OR_KEYWORD,
           p_default = class_getattr Model_cls ''hidden_units'' PyNone\<rparr>,
         \<lparr>p_name = ''dropna'', p_kind = POSITIONAL_OR_KEYWORD,
           p_default = class_getattr Preprocess_cls ''dropna'' PyNone\<rparr>],
      fn_annotations = [],
      fn_globals = [(''Main'', GClass Main_cls), (''Model'', GClass Model_cls),
                    (''Preprocess'', GClass Preprocess_cls)]\<rparr>"

definition fit_registry :: registry where
  "fit_registry = tunable [''hidden_units'', ''dropna''] None ''include'' [] [] fit []"

text \<open>
  An active configuration, a pydantic model: at the top level \<open>root_param = 9\<close> and the
  section \<open>model\<close>, which has \<open>hidden_units = 256\<close> and the section \<open>preprocess\<close>
  with \<open>dropna = 0\<close>. Each model is given with its fields as attributes and with what
  its \<open>model_dump()\<close> returns.
\<close>

definition preprocess_section :: pyobj where
  "preprocess_section =
     PyObj 56 [(''dropna'', int_obj 6 0)] (ModelDump [(''dropna'', int_obj 6 0)])"

definition model_section :: pyobj where
  "model_section =
     PyObj 51 [(''hidden_units'', int_obj 4 256), (''preprocess'', preprocess_section)]
       (ModelDump [(''hidden_units'', int_obj 4 256),
                   (''preprocess'', dict_obj 57 [(''dropna'', int_obj 6 0)])])"

definition example_cfg :: pyobj where
  "example_cfg =
     PyObj 50 [(''root_param'', int_obj 5 9), (''model'', model_section)]
       (ModelDump [(''root_param'', int_obj 5 9),
                   (''model'', dict_obj 52 [(''hidden_units'', int_obj 4 256),
                                            (''preprocess'', dict_obj 57 [(''dropna'', int_obj 6 0)])])])"


text \<open>
  A signature like that of the example's \<open>preprocess\<close>, with a variadic keyword
  parameter added: \<open>(path, dropna=Preprocess.dropna, **extra)\<close>.
\<close>

definition preprocess_sig :: "param list" where
  "preprocess_sig =
     [\<lparr>p_name = ''path'', p_kind = POSITIONAL_OR_KEYWORD, p_default = PyEmpty\<rparr>,
      \<lparr>p_name = ''dropna'', p_kind = POSITIONAL_OR_KEYWORD, p_default = int_obj 3 1\<rparr>,
      \<lparr>p_name = ''extra'', p_kind = VAR_KEYWORD, p_default = PyEmpty\<rparr>]"

text \<open>
  A function \<open>def simple_fn(x=1, y=2)\<close> and the overrides \<open>{"x": 9}\<close> and
  \<open>{"y": 9, "verbose": 0}\<close>.
\<close>

definition simple_fn :: pyfunction where
  "simple_fn =
     \<lparr>fn_id = 3,
      fn_signature =
        [\<lparr>p_name = ''x'', p_kind = POSITIONAL_OR_KEYWORD, p_default = int_obj 30 1\<rparr>,
         \<lparr>p_name = ''y'', p_kind = POSITIONAL_OR_KEYWORD, p_default = int_obj 31 2\<rparr>],
      fn_annotations = [], fn_globals = []\<rparr>"

definition cfg_x :: pyobj where
  "cfg_x = dict_obj 40 [(''x'', int_obj 41 9)]"

definition cfg_y :: pyobj where
  "cfg_y = dict_obj 43 [(''y'', int_obj 44 9), (''verbose'', int_obj 45 0)]"

text \<open>A class \<open>A\<close> with \<open>x: int = 1\<close>, and the body of \<open>class B(A): x: int = None\<close>.\<close>

definition A_cls :: pyclass where
  "A_cls = class_statement ''A'' [''x''] [(''x'', int_obj 60 1)] TunableParameters"

definition B_body :: pyclass_level where
  "B_body = class_body ''B'' [''x''] [(''x'', PyNone)]"

text \<open>
  A parameter class with a field whose default is a builtin function (\<open>math.tanh\<close>, which
  has a \<open>__self__\<close> attribute: the module), and a function whose parameter defaults to it:
  \<open>class Act(Main): activation: Any = Field(math.tanh)\<close> and
  \<open>def act_fn(activation=Act.activation)\<close>.
\<close>

definition tanh_obj :: pyobj where
  "tanh_obj = PyObj 20 [(''__self__'', PyObj 21 [] Plain)] Plain"

definition Act_cls :: pyclass where
  "Act_cls = class_statement ''Act'' [''activation'']
               [(''activation'', field_obj 13 tanh_obj)] Main_cls"

definition act_param :: param where
  "act_param = \<lparr>p_name = ''activation'', p_kind = POSITIONAL_OR_KEYWORD,
                  p_default = class_getattr Act_cls ''activation'' PyNone\<rparr>"

definition act_fn :: pyfunction where
  "act_fn = \<lparr>fn_id = 2, fn_signature = [act_param], fn_annotations = [],
              fn_globals = [(''Main'', GClass Main_cls), (''Act'', GClass Act_cls)]\<rparr>"






section \<open>Properties\<close>

subsection \<open>Strings and objects\<close>

lemma split_dot_empty: "split_dot [] = [[]]"
  by (simp add: split_dot_def)

lemma py_is_None [simp]: "py_is v PyNone \<longleftrightarrow> v = PyNone"
  by (cases v) simp_all

lemma py_is_Empty [simp]: "py_is v PyEmpty \<longleftrightarrow> v = PyEmpty"
  by (cases v) simp_all

lemma lower_examples:
  "lower ''Main'' = ''main''" "lower ''Model'' = ''model''"
  "lower ''Preprocess'' = ''preprocess''"
  by (simp_all add: lower_def lower_char_def)

subsection \<open>The namespace of a class\<close>

lemma namespace_parts_filter:
  "namespace_parts xs = filter (\<lambda>s. s \<noteq> ''main'') (map lower xs)"
  by (induction xs) auto

text \<open>
  C5. A class \<open>C\<close> whose chain below \<open>TunableParameters\<close> is \<open>[A, B, C]\<close> (most general
  first) gets the lower-cased names joined by dots, general to specific, every name that
  lower-cases to \<open>main\<close> left out. With \<open>B\<close> and \<open>C\<close> not so named this is \<open>b.c\<close> when
  \<open>A\<close> is the root class, else \<open>a.b.c\<close>.
\<close>

theorem namespace_of_chain:
  assumes "\<not> is_root_marker a" "\<not> is_root_marker b" "\<not> is_root_marker c" "is_root_marker t"
  shows "calculate_namespace_from_class (c # b # a # t # rest)
           = join_dot (filter (\<lambda>s. s \<noteq> ''main'') (map lower [cls_name a, cls_name b, cls_name c]))
         \<and> (lower (cls_name b) \<noteq> ''main'' \<longrightarrow> lower (cls_name c) \<noteq> ''main'' \<longrightarrow>
              calculate_namespace_from_class (c # b # a # t # rest)
                = (if lower (cls_name a) = ''main''
                   then lower (cls_name b) @ ''.'' @ lower (cls_name c)
                   else lower (cls_name a) @ ''.'' @ lower (cls_name b) @ ''.'' @ lower (cls_name c)))"
proof -
  have h: "hierarchy_names (c # b # a # t # rest) = [cls_name c, cls_name b, cls_name a]"
    using assms by simp
  have g: "calculate_namespace_from_class (c # b # a # t # rest)
           = join_dot (filter (\<lambda>s. s \<noteq> ''main'') (map lower [cls_name a, cls_name b, cls_name c]))"
    unfolding calculate_namespace_from_class_def h Let_def namespace_parts_filter
    by simp
  show ?thesis unfolding g by simp
qed

text \<open>\<open>Preprocess(Model(Main))\<close> gets \<open>model.preprocess\<close>; under a root class named \<open>Base\<close> it gets \<open>base.model.preprocess\<close>.\<close>

theorem namespace_of_chain_witness:
  "calculate_namespace_from_class
     (class_body ''Preprocess'' [] [] # class_body ''Model'' [] [] # class_body ''Main'' [] []
        # TunableParameters) = ''model.preprocess''
   \<and> calculate_namespace_from_class
     (class_body ''Preprocess'' [] [] # class_body ''Model'' [] [] # class_body ''Base'' [] []
        # TunableParameters) = ''base.model.preprocess''"
  using namespace_of_chain [of "class_body ''Main'' [] []" "class_body ''Model'' [] []"
      "class_body ''Preprocess'' [] []" "hd TunableParameters" "tl TunableParameters"]
    namespace_of_chain [of "class_body ''Base'' [] []" "class_body ''Model'' [] []"
      "class_body ''Preprocess'' [] []" "hd TunableParameters" "tl TunableParameters"]
  by (simp add: is_root_marker_def TunableParameters_def class_body_def lower_def lower_char_def)

subsection \<open>Resolving a namespace path\<close>

lemma resolve_root_None:
  "\<not> py_hasattr cfg [] \<Longrightarrow> resolve_nested_section cfg [] = PyNone"
  by (simp add: resolve_nested_section_def split_dot_def)

text \<open>
  C3. The empty namespace is split into the one segment \<open>""\<close>, which no configuration
  object has as an attribute: on the example configuration, whose top level holds
  \<open>root_param\<close>, the empty namespace resolves to \<open>None\<close> and not to the configuration
  itself, while \<open>model\<close> resolves to its section.
\<close>

theorem root_namespace_resolves_to_None:
  "resolve_nested_section example_cfg [] = PyNone
   \<and> example_cfg \<noteq> PyNone
   \<and> resolve_nested_section example_cfg ''model'' = model_section"
  by code_simp

subsection \<open>Field collection\<close>

lemma collect_annotations_map_of:
  "map_of (collect_annotations base anns flds) nm =
     (if nm \<in> set anns \<and> \<not> startswith_underscore nm \<and> class_getattr base nm PyNone \<noteq> PyNone
      then Some (class_getattr base nm PyNone) else map_of flds nm)"
  by (induction anns arbitrary: flds) (auto simp: Let_def update_conv')

lemma snd_set_update: "snd ` set (AList.update k v al) \<subseteq> insert v (snd ` set al)"
  by (induction al) auto

lemma collect_annotations_no_None:
  "PyNone \<notin> snd ` set flds \<Longrightarrow> PyNone \<notin> snd ` set (collect_annotations base anns flds)"
proof (induction anns arbitrary: flds)
  case Nil
  then show ?case by simp
next
  case (Cons nm nms)
  show ?case
  proof (cases "startswith_underscore nm \<or> class_getattr base nm PyNone = PyNone")
    case True
    then show ?thesis using Cons by (auto simp: Let_def)
  next
    case False
    have "PyNone \<notin> snd ` set (AList.update nm (class_getattr base nm PyNone) flds)"
      using snd_set_update [of nm "class_getattr base nm PyNone" flds] False Cons.prems by auto
    then show ?thesis using False Cons.IH by (simp add: Let_def)
  qed
qed

lemma collect_bases_append:
  "collect_bases (xs @ ys) flds = collect_bases ys (collect_bases xs flds)"
  by (induction xs flds rule: collect_bases.induct) auto

text \<open>The loop over the reversed \<open>__mro__\<close>, read from the most specific class down.\<close>

lemma collect_fields_Cons:
  "collect_fields_from_class (l # ls) =
     (if is_root_marker l then collect_fields_from_class ls
      else collect_annotations (l # ls) (cls_annotations l) (collect_fields_from_class ls))"
  by (simp add: collect_fields_from_class_def collect_bases_append)

lemma collect_fields_Nil: "collect_fields_from_class [] = []"
  by (simp add: collect_fields_from_class_def)

lemma collect_fields_no_None: "PyNone \<notin> snd ` set (collect_fields_from_class cls)"
proof (induction cls)
  case Nil
  show ?case by (simp add: collect_fields_Nil)
next
  case (Cons l ls)
  then show ?case
    using collect_annotations_no_None [of "collect_fields_from_class ls" "l # ls" "cls_annotations l"]
    by (simp add: collect_fields_Cons)
qed

text \<open>
  C6, as the code has it. The collected fields map a name to the value of the most
  specific class of the chain that annotates it with a value other than \<open>None\<close>: a more
  specific declaration overrides a more general one unless its value is \<open>None\<close>.
\<close>

theorem collected_field_is_most_specific_value:
  "map_of (collect_fields_from_class cls) nm = most_specific_declaration cls nm"
proof (induction cls)
  case Nil
  show ?case by (simp add: collect_fields_Nil)
next
  case (Cons l ls)
  then show ?case
    by (simp add: collect_fields_Cons collect_annotations_map_of declares_value_def)
qed

text \<open>\<open>class B(A): x: int = 5\<close> overrides the \<open>x = 1\<close> of \<open>A\<close>.\<close>

theorem collected_field_is_most_specific_value_witness:
  "map_of (collect_fields_from_class (class_body ''B'' [''x''] [(''x'', int_obj 61 5)] # A_cls)) ''x''
     = Some (int_obj 61 5)"
proof -
  have "most_specific_declaration (class_body ''B'' [''x''] [(''x'', int_obj 61 5)] # A_cls) ''x''
          = Some (int_obj 61 5)"
    by code_simp
  then show ?thesis
    using collected_field_is_most_specific_value
      [of "class_body ''B'' [''x''] [(''x'', int_obj 61 5)] # A_cls" "''x''"]
    by simp
qed

text \<open>
  C6 as stated fails: \<open>x\<close> is declared in \<open>A\<close> (value 1) and again in the more specific
  \<open>B\<close> (value \<open>None\<close>), and the collected fields of \<open>B\<close> map \<open>x\<close> to the declaration of
  \<open>A\<close>, the more general one.
\<close>

theorem redeclared_None_keeps_general_declaration:
  "''x'' \<in> set (cls_annotations B_body)
   \<and> map_of (cls_dict B_body) ''x'' = Some PyNone
   \<and> class_getattr A_cls ''x'' PyNone = int_obj 60 1
   \<and> map_of (collect_fields_from_class (B_body # A_cls)) ''x'' = Some (int_obj 60 1)"
  by code_simp

text \<open>
  C9. No collected field has the value \<open>None\<close>, and a class whose value for an annotated
  name resolves to \<open>None\<close> leaves what its ancestors collected for that name as it is.
\<close>

theorem collect_fields_omits_None:
  "PyNone \<notin> snd ` set (collect_fields_from_class cls)
   \<and> (class_getattr (l # ls) nm PyNone = PyNone \<longrightarrow>
        map_of (collect_fields_from_class (l # ls)) nm = map_of (collect_fields_from_class ls) nm)"
  by (simp add: collect_fields_no_None collect_fields_Cons collect_annotations_map_of)

text \<open>\<open>class B(A): x: int = None\<close> keeps the \<open>x = 1\<close> that \<open>A\<close> declares.\<close>

theorem collect_fields_omits_None_witness:
  "PyNone \<notin> snd ` set (collect_fields_from_class (B_body # A_cls))
   \<and> class_getattr (B_body # A_cls) ''x'' PyNone = PyNone
   \<and> map_of (collect_fields_from_class (B_body # A_cls)) ''x''
       = map_of (collect_fields_from_class A_cls) ''x''
   \<and> map_of (collect_fields_from_class A_cls) ''x'' = Some (int_obj 60 1)"
proof -
  have h: "class_getattr (B_body # A_cls) ''x'' PyNone = PyNone"
    by code_simp
  have g: "map_of (collect_fields_from_class A_cls) ''x'' = Some (int_obj 60 1)"
    by code_simp
  show ?thesis
    using collect_fields_omits_None [of "B_body # A_cls" B_body A_cls "''x''"] h g
    by simp
qed

subsection \<open>Selection of the tunable parameters\<close>

lemma select_fields_keys:
  "fst ` set (select_fields incl mode excl f sg flds) =
     fst ` set flds \<union> {p_name p | p. p \<in> set sg \<and> p_kind p \<noteq> VAR_POSITIONAL
                                 \<and> p_kind p \<noteq> VAR_KEYWORD \<and> is_selected incl mode excl p}"
  by (induction sg arbitrary: flds) (auto simp: dom_update)

lemma group_keys_update:
  "group_keys (AList.update ns (AList.update nm v (case map_of groups ns of None \<Rightarrow> [] | Some g \<Rightarrow> g)) groups)
     = insert nm (group_keys groups)"
  by (induction groups) (auto simp: group_keys_def dom_update)

lemma group_by_namespace_keys:
  "group_keys (group_by_namespace incl mode excl f sg groups) =
     group_keys groups \<union> {p_name p | p. p \<in> set sg \<and> p_kind p \<noteq> VAR_POSITIONAL
                                 \<and> p_kind p \<noteq> VAR_KEYWORD \<and> is_selected incl mode excl p}"
  by (induction sg arbitrary: groups) (auto simp: group_keys_update Let_def)

lemma group_keys_Nil: "group_keys [] = {}"
  by (simp add: group_keys_def)

lemma selected_by_include:
  "incl \<noteq> [] \<Longrightarrow>
     {p_name p | p. p \<in> set sg \<and> p_kind p \<noteq> VAR_POSITIONAL \<and> p_kind p \<noteq> VAR_KEYWORD
                    \<and> is_selected incl mode excl p}
     = {nm \<in> set incl. \<exists>p \<in> set sg. p_name p = nm \<and> p_kind p \<noteq> VAR_POSITIONAL
                                          \<and> p_kind p \<noteq> VAR_KEYWORD}"
  by (auto simp: is_selected_def)

text \<open>
  C8. With a non-empty include list the selected parameters, both in \<open>fields\<close> and in
  the namespace groups, are exactly the names of the include list that name a parameter
  of the function which is not variadic; whether a parameter declares a default plays no
  part.
\<close>

theorem include_list_selects_exactly:
  assumes "incl \<noteq> []"
  shows "fst ` set (select_fields incl mode excl f sg []) =
           {nm \<in> set incl. \<exists>p \<in> set sg. p_name p = nm \<and> p_kind p \<noteq> VAR_POSITIONAL
                                                \<and> p_kind p \<noteq> VAR_KEYWORD}
         \<and> group_keys (group_by_namespace incl mode excl f sg []) =
           {nm \<in> set incl. \<exists>p \<in> set sg. p_name p = nm \<and> p_kind p \<noteq> VAR_POSITIONAL
                                                \<and> p_kind p \<noteq> VAR_KEYWORD}"
  using selected_by_include [OF assms, of sg mode excl]
  by (simp add: select_fields_keys group_by_namespace_keys group_keys_Nil)

text \<open>
  With the include list \<open>("path", "extra")\<close>: \<open>path\<close>, which has no default, is
  selected; \<open>dropna\<close>, which has one, is not; the variadic \<open>extra\<close> is not.
\<close>

theorem include_list_selects_exactly_witness:
  "fst ` set (select_fields [''path'', ''extra''] ''include'' [] build_model preprocess_sig [])
     = {''path''}
   \<and> group_keys (group_by_namespace [''path'', ''extra''] ''include'' [] build_model preprocess_sig [])
     = {''path''}"
proof -
  have h: "[''path'', ''extra''] \<noteq> []" by simp
  have g: "{nm \<in> set [''path'', ''extra'']. \<exists>p \<in> set preprocess_sig. p_name p = nm
              \<and> p_kind p \<noteq> VAR_POSITIONAL \<and> p_kind p \<noteq> VAR_KEYWORD} = {''path''}"
    by (auto simp: preprocess_sig_def)
  show ?thesis
    using include_list_selects_exactly [OF h, of "''include''" "[]" build_model preprocess_sig] g
    by simp
qed

subsection \<open>Namespace inference for a parameter\<close>

lemma py_is_refl [simp]: "py_is v v"
  by (cases v) simp_all

lemma scan_attributes_iff:
  "scan_attributes cls v names \<longleftrightarrow>
     (\<exists>a \<in> set names. \<not> startswith_underscore a \<and> py_is (class_getattr cls a PyNone) v)"
  by (induction names) auto

lemma scan_globals_find:
  "scan_globals v gs =
     (case first_matching_class v gs of None \<Rightarrow> None
      | Some g \<Rightarrow> Some (get_parameter_class_namespace (global_class g)))"
  by (induction gs) (auto simp: first_matching_class_def has_public_attribute_def scan_attributes_iff)

text \<open>
  C4, as the code has it. A parameter whose default has a \<open>__self__\<close> attribute goes to
  the root namespace. Any other parameter gets the stored namespace of the first parameter
  class among the function's globals that has the default, the very object, as a public
  attribute, and the root namespace when there is none.
\<close>

theorem namespace_of_parameter:
  "param_namespace f p =
     (if py_hasattr (p_default p) ''__self__'' then []
      else case first_matching_class (p_default p) (map snd (fn_globals f)) of
             None \<Rightarrow> []
           | Some g \<Rightarrow> get_parameter_class_namespace (global_class g))"
  by (simp add: param_namespace_def infer_namespace_from_class_attribute_def scan_globals_find
      split: option.split)

text \<open>
  In \<open>build_model\<close>, \<open>hidden_units\<close> goes to \<open>model\<close> and \<open>root_param\<close> to the
  root; a default that equals \<open>Model.hidden_units\<close> but is another object goes to the
  root.
\<close>

theorem namespace_of_parameter_witness:
  "param_namespace build_model (fn_signature build_model ! 0) = ''model''
   \<and> param_namespace build_model (fn_signature build_model ! 1) = []
   \<and> param_namespace build_model
        \<lparr>p_name = ''hidden_units'', p_kind = POSITIONAL_OR_KEYWORD, p_default = int_obj 99 128\<rparr> = []
   \<and> py_eq (int_obj 99 128) (class_getattr Model_cls ''hidden_units'' PyNone)"
proof -
  have a: "\<not> py_hasattr (p_default (fn_signature build_model ! 0)) ''__self__''" by code_simp
  have b: "first_matching_class (p_default (fn_signature build_model ! 0)) (map snd (fn_globals build_model))
             = Some (GClass Model_cls)" by code_simp
  have c: "get_parameter_class_namespace Model_cls = ''model''" by code_simp
  have d: "param_namespace build_model (fn_signature build_model ! 1) = []" by code_simp
  have e: "param_namespace build_model
        \<lparr>p_name = ''hidden_units'', p_kind = POSITIONAL_OR_KEYWORD, p_default = int_obj 99 128\<rparr> = []" by code_simp
  have g: "py_eq (int_obj 99 128) (class_getattr Model_cls ''hidden_units'' PyNone)" by code_simp
  show ?thesis
    using namespace_of_parameter [of build_model "fn_signature build_model ! 0"] a b c d e g
    by simp
qed

text \<open>
  C4 as stated fails: the default of \<open>activation\<close> is the very object stored as the
  default of the field \<open>activation\<close> of \<open>Act\<close>, a class among the function's globals
  whose namespace is \<open>act\<close>, and the parameter is assigned the root namespace.
\<close>

theorem self_attribute_default_goes_to_root:
  "py_is (p_default act_param) (class_getattr Act_cls ''activation'' PyNone)
   \<and> ''activation'' \<in> fst ` set (get_parameter_class_fields Act_cls)
   \<and> get_parameter_class_namespace Act_cls = ''act''
   \<and> GClass Act_cls \<in> snd ` set (fn_globals act_fn)
   \<and> param_namespace act_fn act_param = []"
  by code_simp

text \<open>
  What registration leaves on a class: the stored namespace is the computed one, and the
  default of every stored field is a public attribute of the class, so the scan finds it.
\<close>

lemma get_namespace_setattr:
  "get_parameter_class_namespace (class_setattr c nm v) = get_parameter_class_namespace c"
  by (cases c) simp_all

lemma get_namespace_fold_setup:
  "get_parameter_class_namespace
     (fold (\<lambda>(field_name, field_info) c. setup_class_attribute_access c field_name field_info) flds c)
   = get_parameter_class_namespace c"
  by (induction flds arbitrary: c)
     (auto simp: setup_class_attribute_access_def get_namespace_setattr Let_def)

lemma registered_namespace:
  "get_parameter_class_namespace (register_parameter_class (l # ls))
     = calculate_namespace_from_class (l # ls)"
  by (simp add: register_parameter_class_def Let_def get_namespace_fold_setup)

lemma collect_annotations_keys:
  "fst ` set (collect_annotations base anns flds) \<subseteq> fst ` set flds \<union> {nm \<in> set anns. \<not> startswith_underscore nm}"
proof (induction anns arbitrary: flds)
  case Nil
  show ?case by simp
next
  case (Cons a anns)
  show ?case using Cons [of flds] Cons [of "AList.update a (class_getattr base a PyNone) flds"]
    by (auto simp: Let_def dom_update)
qed

lemma collect_annotations_distinct:
  "distinct (map fst flds) \<Longrightarrow> distinct (map fst (collect_annotations base anns flds))"
  by (induction anns arbitrary: flds) (auto simp: Let_def distinct_update)

lemma collect_fields_public: "nm \<in> fst ` set (collect_fields_from_class cls) \<Longrightarrow> \<not> startswith_underscore nm"
proof (induction cls)
  case Nil
  then show ?case by (simp add: collect_fields_Nil)
next
  case (Cons l ls)
  then show ?case
    using collect_annotations_keys [of "l # ls" "cls_annotations l" "collect_fields_from_class ls"]
    by (auto simp: collect_fields_Cons split: if_splits)
qed

lemma collect_fields_distinct: "distinct (map fst (collect_fields_from_class cls))"
  by (induction cls) (auto simp: collect_fields_Nil collect_fields_Cons collect_annotations_distinct)

lemma fold_setup_Cons:
  "fold (\<lambda>(field_name, field_info) c. setup_class_attribute_access c field_name field_info) flds (l # ls)
   = l\<lparr>cls_dict := fold (\<lambda>(field_name, field_info) d. AList.update field_name (field_default field_info) d)
                       flds (cls_dict l)\<rparr> # ls"
  by (induction flds arbitrary: l)
     (auto simp: setup_class_attribute_access_def field_default_def Let_def)

lemma fold_update_map_of:
  "distinct (map fst flds) \<Longrightarrow> (nm, fi) \<in> set flds \<Longrightarrow>
     map_of (fold (\<lambda>(field_name, field_info) d. AList.update field_name (g field_info) d) flds d) nm
       = Some (g fi)"
proof (induction flds arbitrary: d)
  case Nil
  then show ?case by simp
next
  case (Cons a flds)
  obtain k v where a: "a = (k, v)" by (cases a)
  show ?case
  proof (cases "(nm, fi) \<in> set flds")
    case True
    then show ?thesis using Cons a by simp
  next
    case False
    then have eq: "k = nm" "v = fi" using Cons.prems a by auto
    have notin: "nm \<notin> fst ` set flds" using Cons.prems a eq by auto
    have keep: "\<And>d'. map_of d' nm = Some (g fi) \<Longrightarrow>
        map_of (fold (\<lambda>(field_name, field_info) d. AList.update field_name (g field_info) d) flds d') nm = Some (g fi)"
      using notin
    proof (induction flds)
      case Nil
      then show ?case by simp
    next
      case (Cons b flds)
      then show ?case by (cases b) (auto simp: update_conv')
    qed
    show ?thesis using a eq keep [of "AList.update nm (g fi) d"] by (simp add: update_conv')
  qed
qed

lemma registered_fields:
  "get_parameter_class_fields (register_parameter_class (l # ls)) = collect_fields_from_class (l # ls)"
  by (simp add: register_parameter_class_def Let_def fold_setup_Cons)

lemma stored_field_default_is_public_attribute:
  assumes "(nm, fi) \<in> set (get_parameter_class_fields (register_parameter_class (l # ls)))"
  shows "\<not> startswith_underscore nm
         \<and> class_getattr (register_parameter_class (l # ls)) nm PyNone = field_default fi
         \<and> has_public_attribute (register_parameter_class (l # ls)) (field_default fi)"
proof -
  let ?flds = "collect_fields_from_class (l # ls)"
  let ?d = "fold (\<lambda>(field_name, field_info) d. AList.update field_name (field_default field_info) d)
              ?flds (cls_dict l)"
  have mem: "(nm, fi) \<in> set ?flds" using assms by (simp add: registered_fields)
  have pub: "\<not> startswith_underscore nm"
    using collect_fields_public [of nm "l # ls"] mem by force
  have look: "map_of ?d nm = Some (field_default fi)"
    using fold_update_map_of [OF collect_fields_distinct mem] .
  have reg: "register_parameter_class (l # ls)
               = l\<lparr>tunablex_namespace := Some (calculate_namespace_from_class (l # ls)),
                    tunablex_fields := Some ?flds, cls_dict := ?d\<rparr> # ls"
    by (simp add: register_parameter_class_def Let_def fold_setup_Cons)
  have get: "class_getattr (register_parameter_class (l # ls)) nm PyNone = field_default fi"
    unfolding reg using look by simp
  have "nm \<in> fst ` set ?d" using look by (metis domI dom_map_of_conv_image_fst)
  then have "nm \<in> set (dir_names (register_parameter_class (l # ls)))"
    unfolding reg by (simp add: dir_names_def)
  then have "has_public_attribute (register_parameter_class (l # ls)) (field_default fi)"
    unfolding has_public_attribute_def using pub get by (metis py_is_refl)
  then show ?thesis using pub get by simp
qed

subsection \<open>Collecting the values of a configuration\<close>

lemma wrapper_config_values:
  "wrapper f namespace_arg reg active args cfg kwargs =
     (case config_values f namespace_arg reg active cfg of
        Inl err \<Rightarrow> Inl err
      | Inr injected \<Rightarrow> call_with f args injected kwargs)"
  by (auto simp: wrapper_def config_values_def split: sum.splits option.splits)

lemma collect_params_keys:
  "fst ` set (collect_params sg data acc) =
     fst ` set acc \<union> (fst ` set data \<inter> set (map p_name sg))"
  by (induction sg data acc rule: collect_params.induct) (auto simp: dom_update)

lemma collect_params_drops_unknown:
  "collect_params sg data acc =
     collect_params sg (filter (\<lambda>(k, v). k \<in> set (map p_name sg)) data) acc"
  by (induction sg data acc rule: collect_params.induct) auto

lemma update_fresh: "k \<notin> fst ` set al \<Longrightarrow> AList.update k v al = al @ [(k, v)]"
  by (induction al) auto

lemma collect_params_distinct:
  "distinct (map fst (acc @ data)) \<Longrightarrow>
     collect_params sg data acc = acc @ filter (\<lambda>(k, v). k \<in> set (map p_name sg)) data"
proof (induction data arbitrary: acc)
  case Nil
  then show ?case by simp
next
  case (Cons kv kvs)
  obtain k v where kv: "kv = (k, v)" by (cases kv)
  show ?case
  proof (cases "k \<in> set (map p_name sg)")
    case True
    have fresh: "k \<notin> fst ` set acc" using Cons.prems kv by auto
    have d: "distinct (map fst ((acc @ [(k, v)]) @ kvs))" using Cons.prems kv by simp
    have "collect_params sg kvs (acc @ [(k, v)])
            = (acc @ [(k, v)]) @ filter (\<lambda>(k, v). k \<in> set (map p_name sg)) kvs"
      using Cons.IH [OF d] .
    then show ?thesis using True kv by (simp add: update_fresh [OF fresh])
  next
    case False
    have d: "distinct (map fst (acc @ kvs))" using Cons.prems by simp
    show ?thesis using Cons.IH [OF d] False kv by simp
  qed
qed

lemma collect_section_absent:
  "resolve_nested_section active ns = PyNone \<Longrightarrow> collect_section f active ns acc = Inr acc"
  by (simp add: collect_section_def)

lemma collect_entries_skips_absent:
  "collect_entries f active reg acc =
     collect_entries f active
       (filter (\<lambda>e. resolve_nested_section active (namespace e) \<noteq> PyNone) reg) acc"
  by (induction f active reg acc rule: collect_entries.induct)
     (auto simp: collect_section_absent split: sum.splits)

lemma collect_entries_all_absent:
  "\<forall>e \<in> set reg. fn_id (fn e) = fn_id f \<longrightarrow> resolve_nested_section active (namespace e) = PyNone
     \<Longrightarrow> collect_entries f active reg acc = Inr acc"
  by (induction f active reg acc rule: collect_entries.induct)
     (auto simp: collect_section_absent)

lemma collect_section_keys:
  assumes "collect_section f active ns acc = Inr combined"
  shows "fst ` set combined \<subseteq> fst ` set acc \<union> set (map p_name (fn_signature f))"
proof (cases "resolve_nested_section active ns = PyNone")
  case True
  then show ?thesis using assms by (auto simp: collect_section_def)
next
  case False
  then obtain data where "combined = collect_params (fn_signature f) data acc"
    using assms by (auto simp: collect_section_def Let_def split: sum.splits)
  then show ?thesis
    using collect_params_keys [of "fn_signature f" data acc] by blast
qed

lemma collect_entries_keys:
  "collect_entries f active reg acc = Inr combined \<Longrightarrow>
     fst ` set combined \<subseteq> fst ` set acc \<union> set (map p_name (fn_signature f))"
proof (induction f active reg acc rule: collect_entries.induct)
  case (1 f app_cfg combined)
  then show ?case by auto
next
  case (2 f app_cfg e es acc)
  show ?case
  proof (cases "fn_id (fn e) = fn_id f")
    case False
    then show ?thesis using 2 by simp
  next
    case True
    then obtain c' where c': "collect_section f app_cfg (namespace e) acc = Inr c'"
      and rest: "collect_entries f app_cfg es c' = Inr combined"
      using 2(3) by (auto split: sum.splits)
    have "fst ` set combined \<subseteq> fst ` set c' \<union> set (map p_name (fn_signature f))"
      using 2(1) [OF True c' rest] .
    then show ?thesis using collect_section_keys [OF c'] by blast
  qed
qed

lemma collect_entries_no_raise:
  assumes "\<forall>e \<in> set reg. fn_id (fn e) = fn_id f \<longrightarrow>
             resolve_nested_section active (namespace e) = PyNone
             \<or> (\<exists>data. as_data (resolve_nested_section active (namespace e)) = Inr data)"
  shows "\<exists>combined. collect_entries f active reg acc = Inr combined"
  using assms
proof (induction f active reg acc rule: collect_entries.induct)
  case (1 f app_cfg combined)
  then show ?case by simp
next
  case (2 f app_cfg e es acc)
  show ?case
  proof (cases "fn_id (fn e) = fn_id f")
    case False
    then show ?thesis using 2 by simp
  next
    case True
    then have "resolve_nested_section app_cfg (namespace e) = PyNone
             \<or> (\<exists>data. as_data (resolve_nested_section app_cfg (namespace e)) = Inr data)"
      using 2(3) by simp
    then have "\<exists>c'. collect_section f app_cfg (namespace e) acc = Inr c'"
      by (auto simp: collect_section_def Let_def)
    then obtain c' where c': "collect_section f app_cfg (namespace e) acc = Inr c'" ..
    show ?thesis using 2(1) [OF True c'] 2(3) True c' by simp
  qed
qed

lemma config_values_override:
  "cfg \<noteq> PyNone \<Longrightarrow> as_data cfg = Inr data \<Longrightarrow>
     config_values f namespace_arg reg active cfg = Inr (collect_params (fn_signature f) data [])"
  by (simp add: config_values_def)

lemma resolution_without_override:
  assumes "\<forall>ns \<in> set (consulted_namespaces f namespace_arg reg).
             resolve_nested_section active ns = PyNone
             \<or> (\<exists>data. as_data (resolve_nested_section active ns) = Inr data)"
  shows "\<exists>combined. config_values f namespace_arg reg active PyNone = Inr combined
           \<and> fst ` set combined \<subseteq> set (map p_name (fn_signature f))
           \<and> ((\<forall>ns \<in> set (consulted_namespaces f namespace_arg reg).
                   resolve_nested_section active ns = PyNone) \<longrightarrow> combined = [])"
proof (cases "active = PyNone")
  case True
  then show ?thesis by (simp add: config_values_def)
next
  case False
  show ?thesis
  proof (cases namespace_arg)
    case None
    have H: "\<forall>e \<in> set reg. fn_id (fn e) = fn_id f \<longrightarrow>
             resolve_nested_section active (namespace e) = PyNone
             \<or> (\<exists>data. as_data (resolve_nested_section active (namespace e)) = Inr data)"
      using assms None by (simp add: consulted_namespaces_def by_namespace_values_def)
    obtain combined where c: "collect_entries f active reg [] = Inr combined"
      using collect_entries_no_raise [OF H] by blast
    have k: "fst ` set combined \<subseteq> set (map p_name (fn_signature f))"
      using collect_entries_keys [OF c] by simp
    have e: "combined = []"
      if "\<forall>ns \<in> set (consulted_namespaces f namespace_arg reg).
             resolve_nested_section active ns = PyNone"
    proof -
      have "\<forall>e \<in> set reg. fn_id (fn e) = fn_id f \<longrightarrow>
              resolve_nested_section active (namespace e) = PyNone"
        using that None by (simp add: consulted_namespaces_def by_namespace_values_def)
      then show ?thesis using collect_entries_all_absent [of reg f active "[]"] c by simp
    qed
    show ?thesis using c k e None False
      by (simp add: config_values_def by_namespace_values_def)
  next
    case (Some ns)
    have H: "resolve_nested_section active ns = PyNone
             \<or> (\<exists>data. as_data (resolve_nested_section active ns) = Inr data)"
      using assms Some by (simp add: consulted_namespaces_def)
    then have "\<exists>combined. collect_section f active ns [] = Inr combined"
      by (auto simp: collect_section_def Let_def)
    then obtain combined where c: "collect_section f active ns [] = Inr combined" ..
    have k: "fst ` set combined \<subseteq> set (map p_name (fn_signature f))"
      using collect_section_keys [OF c] by simp
    have e: "combined = []" if "resolve_nested_section active ns = PyNone"
      using collect_section_absent [OF that, of f "[]"] c by simp
    show ?thesis using c k e Some False
      by (simp add: config_values_def consulted_namespaces_def)
  qed
qed

lemma as_data_error: "as_data s = Inl err \<Longrightarrow> err = AttributeError"
  by (cases s rule: as_data.cases) auto

lemma collect_section_present:
  "resolve_nested_section active ns \<noteq> PyNone \<Longrightarrow> as_data (resolve_nested_section active ns) = Inr data
     \<Longrightarrow> collect_section f active ns acc = Inr (collect_params (fn_signature f) data acc)"
  by (simp add: collect_section_def)


lemma collect_section_error: "collect_section f active ns acc = Inl err \<Longrightarrow> err = AttributeError"
  using as_data_error [of "resolve_nested_section active ns"]
  by (auto simp: collect_section_def Let_def split: if_splits sum.splits)

lemma collect_section_mono:
  assumes "collect_section f active ns acc = Inr combined"
  shows "fst ` set acc \<subseteq> fst ` set combined"
proof (cases "resolve_nested_section active ns = PyNone")
  case True
  then show ?thesis using assms by (simp add: collect_section_def)
next
  case False
  then obtain data where "combined = collect_params (fn_signature f) data acc"
    using assms by (auto simp: collect_section_def Let_def split: sum.splits)
  then show ?thesis using collect_params_keys [of "fn_signature f" data acc] by blast
qed

lemma collect_entries_Cons:
  "collect_entries f active (e # es) acc =
     (if fn_id (fn e) = fn_id f then
        (case collect_section f active (namespace e) acc of
           Inl err \<Rightarrow> Inl err
         | Inr combined \<Rightarrow> collect_entries f active es combined)
      else collect_entries f active es acc)"
  by simp

lemma collect_entries_error: "collect_entries f active reg acc = Inl err \<Longrightarrow> err = AttributeError"
proof (induction reg arbitrary: acc)
  case Nil
  then show ?case by simp
next
  case (Cons e es)
  show ?case
  proof (cases "fn_id (fn e) = fn_id f")
    case False
    then show ?thesis using Cons by simp
  next
    case True
    show ?thesis
    proof (cases "collect_section f active (namespace e) acc")
      case (Inl err')
      then show ?thesis using Cons.prems True collect_section_error [OF Inl] by simp
    next
      case (Inr c)
      then show ?thesis using Cons.prems True Cons.IH [of c] by simp
    qed
  qed
qed

lemma collect_entries_mono:
  "collect_entries f active reg acc = Inr combined \<Longrightarrow> fst ` set acc \<subseteq> fst ` set combined"
proof (induction reg arbitrary: acc)
  case Nil
  then show ?case by simp
next
  case (Cons e es)
  show ?case
  proof (cases "fn_id (fn e) = fn_id f")
    case False
    then show ?thesis using Cons by simp
  next
    case True
    show ?thesis
    proof (cases "collect_section f active (namespace e) acc")
      case (Inl err')
      then show ?thesis using Cons.prems True by simp
    next
      case (Inr c)
      then have "collect_entries f active es c = Inr combined" using Cons.prems True by simp
      then have "fst ` set c \<subseteq> fst ` set combined" using Cons.IH by blast
      then show ?thesis using collect_section_mono [OF Inr] by blast
    qed
  qed
qed

lemma collect_entries_has_key:
  "collect_entries f active reg acc = Inr combined \<Longrightarrow> e \<in> set reg \<Longrightarrow> fn_id (fn e) = fn_id f
     \<Longrightarrow> resolve_nested_section active (namespace e) \<noteq> PyNone
     \<Longrightarrow> as_data (resolve_nested_section active (namespace e)) = Inr data
     \<Longrightarrow> x \<in> fst ` set data \<Longrightarrow> x \<in> set (map p_name (fn_signature f))
     \<Longrightarrow> x \<in> fst ` set combined"
proof (induction reg arbitrary: acc)
  case Nil
  then show ?case by simp
next
  case (Cons e' es)
  show ?case
  proof (cases "fn_id (fn e') = fn_id f")
    case False
    then have "collect_entries f active es acc = Inr combined" "e \<in> set es"
      using Cons.prems by auto
    then show ?thesis using Cons.IH Cons.prems by blast
  next
    case True
    show ?thesis
    proof (cases "collect_section f active (namespace e') acc")
      case (Inl err')
      then show ?thesis using Cons.prems True by simp
    next
      case (Inr c)
      then have rest: "collect_entries f active es c = Inr combined" using Cons.prems True by simp
      show ?thesis
      proof (cases "e = e'")
        case eq: True
        have "c = collect_params (fn_signature f) data acc"
          using collect_section_present [OF Cons.prems(4) Cons.prems(5), of f acc] Inr eq by simp
        then have "x \<in> fst ` set c"
          using collect_params_keys [of "fn_signature f" data acc] Cons.prems(6) Cons.prems(7) by blast
        then show ?thesis using collect_entries_mono [OF rest] by blast
      next
        case False
        then have "e \<in> set es" using Cons.prems(2) by simp
        then show ?thesis using Cons.IH [OF rest] Cons.prems by blast
      qed
    qed
  qed
qed


lemma consulted_namespace_entry:
  "ns \<in> set (consulted_namespaces f None reg) \<Longrightarrow>
     \<exists>e \<in> set reg. fn_id (fn e) = fn_id f \<and> namespace e = ns"
  by (auto simp: consulted_namespaces_def by_namespace_values_def)

lemma active_section_value_is_collected:
  assumes "active \<noteq> PyNone" "ns \<in> set (consulted_namespaces f namespace_arg reg)"
    "resolve_nested_section active ns \<noteq> PyNone"
    "as_data (resolve_nested_section active ns) = Inr sdata"
    "x \<in> fst ` set sdata" "x \<in> set (map p_name (fn_signature f))"
  shows "config_values f namespace_arg reg active PyNone = Inl AttributeError
         \<or> (\<exists>injected. config_values f namespace_arg reg active PyNone = Inr injected
                \<and> x \<in> fst ` set injected)"
proof (cases namespace_arg)
  case None
  obtain e where e: "e \<in> set reg" "fn_id (fn e) = fn_id f" "namespace e = ns"
    using consulted_namespace_entry assms(2) None by blast
  show ?thesis
  proof (cases "collect_entries f active reg []")
    case (Inl err)
    then show ?thesis using collect_entries_error [OF Inl] None assms(1)
      by (simp add: config_values_def by_namespace_values_def)
  next
    case (Inr combined)
    have "x \<in> fst ` set combined"
      using collect_entries_has_key [OF Inr e(1) e(2), of sdata x] assms(3-6) e(3) by simp
    then show ?thesis using Inr None assms(1)
      by (simp add: config_values_def by_namespace_values_def)
  qed
next
  case (Some ns')
  then have eq: "ns' = ns" using assms(2) by (simp add: consulted_namespaces_def)
  have "collect_section f active ns [] = Inr (collect_params (fn_signature f) sdata [])"
    using collect_section_present [OF assms(3) assms(4)] .
  moreover have "x \<in> fst ` set (collect_params (fn_signature f) sdata [])"
    using assms(5) assms(6) by (simp add: collect_params_keys)
  ultimately show ?thesis using Some eq assms(1) by (simp add: config_values_def)
qed


subsection \<open>Binding the arguments of a call\<close>

lemma map_of_snoc_old: "map_of xs k = Some v \<Longrightarrow> map_of (xs @ ys) k = Some v"
  by (simp add: map_add_Some_iff)

lemma map_of_snoc_new: "k \<notin> fst ` set xs \<Longrightarrow> map_of (xs @ [(k, v)]) k = Some v"
  by (simp add: map_add_Some_iff map_of_eq_None_iff)

lemma bind_keywords_Cons:
  assumes "bind_keywords sg ((k, v) # kws) ivk = Inr ivk'"
  shows "(k \<in> set (keyword_names sg) \<and> k \<notin> fst ` set (bound ivk)
           \<and> bind_keywords sg kws (ivk\<lparr>bound := bound ivk @ [(k, v)]\<rparr>) = Inr ivk')
         \<or> (k \<notin> set (keyword_names sg)
           \<and> bind_keywords sg kws (ivk\<lparr>star_kwargs := star_kwargs ivk @ [(k, v)]\<rparr>) = Inr ivk')"
proof (cases "k \<in> set (keyword_names sg)")
  case True
  then show ?thesis using assms by (simp split: if_splits)
next
  case False
  then show ?thesis using assms by (simp split: if_splits)
qed

lemma bind_keywords_preserves:
  "bind_keywords sg kws ivk = Inr ivk' \<Longrightarrow> map_of (bound ivk) k = Some v
     \<Longrightarrow> map_of (bound ivk') k = Some v"
proof (induction kws arbitrary: ivk)
  case Nil
  then show ?case by simp
next
  case (Cons kv kws)
  obtain k' v' where kv: "kv = (k', v')" by (cases kv)
  from bind_keywords_Cons [OF Cons.prems(1) [unfolded kv]]
  show ?case
  proof
    assume a: "k' \<in> set (keyword_names sg) \<and> k' \<notin> fst ` set (bound ivk)
           \<and> bind_keywords sg kws (ivk\<lparr>bound := bound ivk @ [(k', v')]\<rparr>) = Inr ivk'"
    have "map_of (bound (ivk\<lparr>bound := bound ivk @ [(k', v')]\<rparr>)) k = Some v"
      using map_of_snoc_old [OF Cons.prems(2), of "[(k', v')]"] by simp
    then show ?thesis using Cons.IH a by blast
  next
    assume a: "k' \<notin> set (keyword_names sg)
           \<and> bind_keywords sg kws (ivk\<lparr>star_kwargs := star_kwargs ivk @ [(k', v')]\<rparr>) = Inr ivk'"
    have "map_of (bound (ivk\<lparr>star_kwargs := star_kwargs ivk @ [(k', v')]\<rparr>)) k = Some v"
      using Cons.prems(2) by simp
    then show ?thesis using Cons.IH a by blast
  qed
qed

lemma bind_keywords_binds:
  "bind_keywords sg kws ivk = Inr ivk' \<Longrightarrow> (x, v) \<in> set kws
     \<Longrightarrow> x \<in> set (keyword_names sg) \<Longrightarrow> map_of (bound ivk') x = Some v"
proof (induction kws arbitrary: ivk)
  case Nil
  then show ?case by simp
next
  case (Cons kv kws)
  obtain k' v' where kv: "kv = (k', v')" by (cases kv)
  note split = bind_keywords_Cons [OF Cons.prems(1) [unfolded kv]]
  show ?case
  proof (cases "(x, v) = (k', v')")
    case True
    then have fresh: "x \<notin> fst ` set (bound ivk)"
      and rest: "bind_keywords sg kws (ivk\<lparr>bound := bound ivk @ [(x, v)]\<rparr>) = Inr ivk'"
      using split Cons.prems(3) by auto
    have "map_of (bound (ivk\<lparr>bound := bound ivk @ [(x, v)]\<rparr>)) x = Some v"
      using map_of_snoc_new [OF fresh, of v] by simp
    then show ?thesis using bind_keywords_preserves [OF rest] by blast
  next
    case False
    then have mem: "(x, v) \<in> set kws" using Cons.prems(2) kv by auto
    from split show ?thesis
    proof
      assume "k' \<in> set (keyword_names sg) \<and> k' \<notin> fst ` set (bound ivk)
           \<and> bind_keywords sg kws (ivk\<lparr>bound := bound ivk @ [(k', v')]\<rparr>) = Inr ivk'"
      then show ?thesis using Cons.IH mem Cons.prems(3) by blast
    next
      assume "k' \<notin> set (keyword_names sg)
           \<and> bind_keywords sg kws (ivk\<lparr>star_kwargs := star_kwargs ivk @ [(k', v')]\<rparr>) = Inr ivk'"
      then show ?thesis using Cons.IH mem Cons.prems(3) by blast
    qed
  qed
qed


lemma bind_defaults_Cons:
  assumes "bind_defaults (q # ps) ivk = Inr ivk'"
  shows "((p_kind q = VAR_POSITIONAL \<or> p_kind q = VAR_KEYWORD \<or> p_name q \<in> fst ` set (bound ivk))
           \<and> bind_defaults ps ivk = Inr ivk')
         \<or> (p_kind q \<noteq> VAR_POSITIONAL \<and> p_kind q \<noteq> VAR_KEYWORD \<and> p_name q \<notin> fst ` set (bound ivk)
           \<and> bind_defaults ps (ivk\<lparr>bound := bound ivk @ [(p_name q, p_default q)]\<rparr>) = Inr ivk')"
proof (cases "p_kind q = VAR_POSITIONAL \<or> p_kind q = VAR_KEYWORD \<or> p_name q \<in> fst ` set (bound ivk)")
  case True
  then show ?thesis using assms by auto
next
  case False
  then show ?thesis using assms by (simp split: if_splits)
qed

lemma bind_defaults_preserves:
  "bind_defaults ps ivk = Inr ivk' \<Longrightarrow> map_of (bound ivk) k = Some v
     \<Longrightarrow> map_of (bound ivk') k = Some v"
proof (induction ps arbitrary: ivk)
  case Nil
  then show ?case by simp
next
  case (Cons q ps)
  from bind_defaults_Cons [OF Cons.prems(1)]
  show ?case
  proof
    assume "(p_kind q = VAR_POSITIONAL \<or> p_kind q = VAR_KEYWORD \<or> p_name q \<in> fst ` set (bound ivk))
           \<and> bind_defaults ps ivk = Inr ivk'"
    then show ?thesis using Cons.IH Cons.prems(2) by blast
  next
    assume a: "p_kind q \<noteq> VAR_POSITIONAL \<and> p_kind q \<noteq> VAR_KEYWORD \<and> p_name q \<notin> fst ` set (bound ivk)
           \<and> bind_defaults ps (ivk\<lparr>bound := bound ivk @ [(p_name q, p_default q)]\<rparr>) = Inr ivk'"
    have "map_of (bound (ivk\<lparr>bound := bound ivk @ [(p_name q, p_default q)]\<rparr>)) k = Some v"
      using map_of_snoc_old [OF Cons.prems(2), of "[(p_name q, p_default q)]"] by simp
    then show ?thesis using Cons.IH a by blast
  qed
qed



lemma call_with_conflict:
  "x \<in> fst ` set injected \<Longrightarrow> x \<in> fst ` set kwargs \<Longrightarrow> call_with f args injected kwargs = Inl TypeError"
  by (auto simp: call_with_def)

lemma call_with_Inr:
  assumes "call_with f args injected kwargs = Inr ivk"
  shows "\<exists>ivk1. bind_keywords (fn_signature f) (injected @ kwargs)
            \<lparr>bound = zip (map p_name (positional_params (fn_signature f))) args,
             star_args = drop (length (positional_params (fn_signature f))) args,
             star_kwargs = []\<rparr> = Inr ivk1
          \<and> bind_defaults (fn_signature f) ivk1 = Inr ivk"
proof -
  have b: "bind_arguments (fn_signature f) args (injected @ kwargs) = Inr ivk"
    using assms unfolding call_with_def by (simp split: if_splits)
  show ?thesis
    using b unfolding bind_arguments_def Let_def by (simp split: if_splits sum.splits)
qed

lemma call_with_binds:
  assumes "call_with f args injected kwargs = Inr ivk" "(x, v) \<in> set (injected @ kwargs)"
    "x \<in> set (keyword_names (fn_signature f))"
  shows "map_of (bound ivk) x = Some v"
proof -
  obtain ivk1 where k: "bind_keywords (fn_signature f) (injected @ kwargs)
        \<lparr>bound = zip (map p_name (positional_params (fn_signature f))) args,
         star_args = drop (length (positional_params (fn_signature f))) args,
         star_kwargs = []\<rparr> = Inr ivk1"
    and d: "bind_defaults (fn_signature f) ivk1 = Inr ivk"
    using call_with_Inr [OF assms(1)] by blast
  show ?thesis
    using bind_defaults_preserves [OF d bind_keywords_binds [OF k assms(2) assms(3)]] .
qed


lemma keyword_names_subset: "set (keyword_names sg) \<subseteq> set (map p_name sg)"
  by (auto simp: keyword_names_def)

subsection \<open>Explicit keyword arguments against configuration values\<close>

text \<open>
  C1, as the code has it. Let the caller pass \<open>x=v\<close> by keyword, \<open>x\<close> a parameter of
  the function. If the items of the override hold a value for \<open>x\<close>, the call raises
  \<open>TypeError\<close> before the function is entered. If, without an override, a namespace the
  call consults resolves in the active configuration to a section whose items hold a value
  for \<open>x\<close>, the call raises as well: \<open>TypeError\<close>, or \<open>AttributeError\<close> when another
  consulted namespace resolves to an object that is neither a dict nor a model. The
  function is never entered with the configuration's value for \<open>x\<close>: whenever the
  wrapper enters it, \<open>x\<close> is bound to \<open>v\<close>.
\<close>

theorem explicit_keyword_with_config_value:
  assumes "(x, v) \<in> set kwargs" "x \<in> set (map p_name (fn_signature f))"
  shows "(cfg \<noteq> PyNone \<longrightarrow> as_data cfg = Inr data \<longrightarrow> x \<in> fst ` set data \<longrightarrow>
            wrapper f namespace_arg reg active args cfg kwargs = Inl TypeError)
       \<and> (active \<noteq> PyNone \<longrightarrow> ns \<in> set (consulted_namespaces f namespace_arg reg) \<longrightarrow>
            resolve_nested_section active ns \<noteq> PyNone \<longrightarrow>
            as_data (resolve_nested_section active ns) = Inr sdata \<longrightarrow> x \<in> fst ` set sdata \<longrightarrow>
              (wrapper f namespace_arg reg active args PyNone kwargs = Inl TypeError
               \<or> wrapper f namespace_arg reg active args PyNone kwargs = Inl AttributeError)
            \<and> ((\<forall>ns' \<in> set (consulted_namespaces f namespace_arg reg).
                    resolve_nested_section active ns' = PyNone
                    \<or> (\<exists>d. as_data (resolve_nested_section active ns') = Inr d)) \<longrightarrow>
                 wrapper f namespace_arg reg active args PyNone kwargs = Inl TypeError))
       \<and> (\<forall>ivk. wrapper f namespace_arg reg active args cfg kwargs = Inr ivk \<longrightarrow>
              x \<in> set (keyword_names (fn_signature f)) \<longrightarrow> map_of (bound ivk) x = Some v)"
proof -
  have xk: "x \<in> fst ` set kwargs" using assms(1) by force
  have a: "wrapper f namespace_arg reg active args cfg kwargs = Inl TypeError"
    if "cfg \<noteq> PyNone" "as_data cfg = Inr data" "x \<in> fst ` set data"
  proof -
    have "x \<in> fst ` set (collect_params (fn_signature f) data [])"
      using that(3) assms(2) by (simp add: collect_params_keys)
    then show ?thesis
      using that(1) that(2) xk by (simp add: wrapper_def call_with_conflict)
  qed
  have b: "(wrapper f namespace_arg reg active args PyNone kwargs = Inl TypeError
               \<or> wrapper f namespace_arg reg active args PyNone kwargs = Inl AttributeError)
            \<and> ((\<forall>ns' \<in> set (consulted_namespaces f namespace_arg reg).
                    resolve_nested_section active ns' = PyNone
                    \<or> (\<exists>d. as_data (resolve_nested_section active ns') = Inr d)) \<longrightarrow>
                 wrapper f namespace_arg reg active args PyNone kwargs = Inl TypeError)"
    if "active \<noteq> PyNone" "ns \<in> set (consulted_namespaces f namespace_arg reg)"
       "resolve_nested_section active ns \<noteq> PyNone"
       "as_data (resolve_nested_section active ns) = Inr sdata" "x \<in> fst ` set sdata"
  proof -
    note cases = active_section_value_is_collected [OF that assms(2)]
    have raised: "wrapper f namespace_arg reg active args PyNone kwargs = Inl TypeError"
      if "config_values f namespace_arg reg active PyNone = Inr injected" "x \<in> fst ` set injected"
      for injected
      using that xk by (simp add: wrapper_config_values call_with_conflict)
    have first: "wrapper f namespace_arg reg active args PyNone kwargs = Inl TypeError
               \<or> wrapper f namespace_arg reg active args PyNone kwargs = Inl AttributeError"
    proof -
      from cases show ?thesis
      proof
        assume "config_values f namespace_arg reg active PyNone = Inl AttributeError"
        then show ?thesis by (simp add: wrapper_config_values)
      next
        assume "\<exists>injected. config_values f namespace_arg reg active PyNone = Inr injected
                  \<and> x \<in> fst ` set injected"
        then show ?thesis using raised by blast
      qed
    qed
    have second: "wrapper f namespace_arg reg active args PyNone kwargs = Inl TypeError"
      if wf: "\<forall>ns' \<in> set (consulted_namespaces f namespace_arg reg).
                    resolve_nested_section active ns' = PyNone
                    \<or> (\<exists>d. as_data (resolve_nested_section active ns') = Inr d)"
    proof -
      have "\<exists>combined. config_values f namespace_arg reg active PyNone = Inr combined"
        using resolution_without_override [OF wf] by blast
      then obtain combined where "config_values f namespace_arg reg active PyNone = Inr combined" ..
      then show ?thesis using cases raised by force
    qed
    show ?thesis using first second by blast
  qed
  have c: "map_of (bound ivk) x = Some v"
    if "wrapper f namespace_arg reg active args cfg kwargs = Inr ivk"
       "x \<in> set (keyword_names (fn_signature f))" for ivk
  proof -
    have "\<exists>inj. call_with f args inj kwargs = Inr ivk"
      using that(1) unfolding wrapper_config_values
      by (cases "config_values f namespace_arg reg active cfg") auto
    then obtain inj where "call_with f args inj kwargs = Inr ivk" ..
    then show ?thesis using call_with_binds [of f args inj kwargs ivk x v] assms(1) that(2) by simp
  qed
  show ?thesis using a b c by blast
qed

text \<open>
  \<open>simple_fn(x=5, cfg={"x": 9})\<close> raises; \<open>build_model(hidden_units=5)\<close> raises under
  the example configuration, whose section \<open>model\<close> has \<open>hidden_units\<close>;
  \<open>simple_fn(x=5, cfg={"y": 9, "verbose": 0})\<close> enters the function with \<open>x = 5\<close>.
\<close>

theorem explicit_keyword_with_config_value_witness:
  "wrapper simple_fn None [] PyNone [] cfg_x [(''x'', int_obj 42 5)] = Inl TypeError
   \<and> wrapper build_model None build_model_registry example_cfg [] PyNone
        [(''hidden_units'', int_obj 42 5)] = Inl TypeError
   \<and> (\<exists>ivk. wrapper simple_fn None [] PyNone [] cfg_y [(''x'', int_obj 42 5)] = Inr ivk
            \<and> map_of (bound ivk) ''x'' = Some (int_obj 42 5))"
proof -
  have h1: "(''x'', int_obj 42 5) \<in> set [(''x'', int_obj 42 5)]" by simp
  have h2: "''x'' \<in> set (map p_name (fn_signature simple_fn))" by (simp add: simple_fn_def)
  have h3: "''x'' \<in> set (keyword_names (fn_signature simple_fn))"
    by (simp add: simple_fn_def keyword_names_def)
  have c1: "cfg_x \<noteq> PyNone" "as_data cfg_x = Inr [(''x'', int_obj 41 9)]"
    "''x'' \<in> fst ` set [(''x'', int_obj 41 9)]"
    by (simp_all add: cfg_x_def dict_obj_def)
  have a: "wrapper simple_fn None [] PyNone [] cfg_x [(''x'', int_obj 42 5)] = Inl TypeError"
    using explicit_keyword_with_config_value [OF h1 h2,
        where cfg = cfg_x and data = "[(''x'', int_obj 41 9)]" and namespace_arg = None
          and reg = "[]" and active = PyNone and args = "[]"] c1
    by blast
  have g1: "(''hidden_units'', int_obj 42 5) \<in> set [(''hidden_units'', int_obj 42 5)]" by simp
  have g2: "''hidden_units'' \<in> set (map p_name (fn_signature build_model))"
    by (simp add: build_model_def)
  have ns: "consulted_namespaces build_model None build_model_registry = [''model'', []]"
    by code_simp
  have r1: "resolve_nested_section example_cfg ''model'' = model_section" by code_simp
  have r2: "resolve_nested_section example_cfg [] = PyNone" by code_simp
  have d1: "as_data model_section
              = Inr [(''hidden_units'', int_obj 4 256),
                     (''preprocess'', dict_obj 57 [(''dropna'', int_obj 6 0)])]"
    by (simp add: model_section_def)
  have n1: "model_section \<noteq> PyNone" by (simp add: model_section_def)
  have n2: "example_cfg \<noteq> PyNone" by (simp add: example_cfg_def)
  have wf: "\<forall>ns' \<in> set (consulted_namespaces build_model None build_model_registry).
              resolve_nested_section example_cfg ns' = PyNone
              \<or> (\<exists>d. as_data (resolve_nested_section example_cfg ns') = Inr d)"
    using ns r1 r2 d1 by simp
  have mem: "''model'' \<in> set (consulted_namespaces build_model None build_model_registry)"
    using ns by simp
  have key: "''hidden_units'' \<in> fst ` set [(''hidden_units'', int_obj 4 256),
                     (''preprocess'', dict_obj 57 [(''dropna'', int_obj 6 0)])]"
    by simp
  have b: "wrapper build_model None build_model_registry example_cfg [] PyNone
        [(''hidden_units'', int_obj 42 5)] = Inl TypeError"
    using explicit_keyword_with_config_value [OF g1 g2,
        where namespace_arg = None and reg = build_model_registry and active = example_cfg
          and ns = "''model''" and args = "[]"
          and sdata = "[(''hidden_units'', int_obj 4 256),
                     (''preprocess'', dict_obj 57 [(''dropna'', int_obj 6 0)])]"]
      n2 mem r1 n1 d1 key wf
    by simp
  have run: "wrapper simple_fn None [] PyNone [] cfg_y [(''x'', int_obj 42 5)]
               = Inr \<lparr>bound = [(''y'', int_obj 44 9), (''x'', int_obj 42 5)], star_args = [],
                      star_kwargs = []\<rparr>"
    by code_simp
  have c: "map_of (bound \<lparr>bound = [(''y'', int_obj 44 9), (''x'', int_obj 42 5)], star_args = [],
                      star_kwargs = []\<rparr>) ''x'' = Some (int_obj 42 5)"
    using explicit_keyword_with_config_value [OF h1 h2,
        where cfg = cfg_y and namespace_arg = None
          and reg = "[]" and active = PyNone and args = "[]"] run h3
    by blast
  show ?thesis using a b c run by blast
qed

text \<open>
  C1 as stated fails: with \<open>x=5\<close> passed by keyword and the override \<open>{"x": 9}\<close>
  the call does not succeed with \<open>x=5\<close>, it raises \<open>TypeError\<close>; and so does
  \<open>build_model(hidden_units=5)\<close> under an active configuration whose \<open>model\<close> section
  has \<open>hidden_units\<close>.
\<close>

theorem explicit_keyword_conflict_raises:
  "wrapper simple_fn None [] PyNone [] cfg_x [(''x'', int_obj 42 5)] = Inl TypeError
   \<and> wrapper build_model None build_model_registry example_cfg [] PyNone
        [(''hidden_units'', int_obj 42 5)] = Inl TypeError"
  by code_simp

subsection \<open>The override filters against the whole signature\<close>

text \<open>
  C10. With an override \<open>cfg\<close> the function is called with the items of \<open>cfg\<close> whose
  keys are parameter names of its signature, whatever was selected as tunable; the
  result depends on neither the registry, the namespace nor the active configuration;
  and a keyword parameter the override names is bound to the override's value whenever
  the function is entered.
\<close>

theorem cfg_override_filters_by_signature:
  assumes "cfg \<noteq> PyNone" "as_data cfg = Inr data" "distinct (map fst data)"
  shows "wrapper f namespace_arg reg active args cfg kwargs
           = call_with f args (filter (\<lambda>(k, v). k \<in> set (map p_name (fn_signature f))) data) kwargs
       \<and> wrapper f namespace_arg reg active args cfg kwargs
           = wrapper f namespace_arg' reg' active' args cfg kwargs
       \<and> (\<forall>ivk k v. wrapper f namespace_arg reg active args cfg kwargs = Inr ivk \<longrightarrow>
              (k, v) \<in> set data \<longrightarrow> k \<in> set (keyword_names (fn_signature f)) \<longrightarrow>
              map_of (bound ivk) k = Some v)"
proof -
  let ?filtered = "filter (\<lambda>(k, v). k \<in> set (map p_name (fn_signature f))) data"
  have flt: "collect_params (fn_signature f) data [] = ?filtered"
    using collect_params_distinct [of "[]" data "fn_signature f"] assms(3) by simp
  have w: "\<And>ns r a. wrapper f ns r a args cfg kwargs = call_with f args ?filtered kwargs"
    using assms(1) assms(2) flt by (simp add: wrapper_def)
  have b: "map_of (bound ivk) k = Some v"
    if "wrapper f namespace_arg reg active args cfg kwargs = Inr ivk" "(k, v) \<in> set data"
      "k \<in> set (keyword_names (fn_signature f))" for ivk k v
  proof -
    have "k \<in> set (map p_name (fn_signature f))"
      using that(3) keyword_names_subset by blast
    then have "(k, v) \<in> set (?filtered @ kwargs)" using that(2) by simp
    then show ?thesis
      using call_with_binds [of f args ?filtered kwargs ivk k v] that(1) that(3) w by simp
  qed
  show ?thesis using w b by simp
qed

text \<open>
  Only \<open>x\<close> of \<open>simple_fn\<close> is registered as tunable; the override
  \<open>{"y": 9, "verbose": 0}\<close> sets \<open>y\<close>, its key \<open>verbose\<close> is dropped, and the
  active configuration plays no part.
\<close>

theorem cfg_override_filters_by_signature_witness:
  "map (\<lambda>e. map fst (model e)) (tunable [''x''] None ''include'' [] [] simple_fn []) = [[''x'']]
   \<and> wrapper simple_fn None (tunable [''x''] None ''include'' [] [] simple_fn []) example_cfg [] cfg_y []
       = call_with simple_fn [] [(''y'', int_obj 44 9)] []
   \<and> wrapper simple_fn None (tunable [''x''] None ''include'' [] [] simple_fn []) example_cfg [] cfg_y []
       = Inr \<lparr>bound = [(''y'', int_obj 44 9), (''x'', int_obj 30 1)], star_args = [], star_kwargs = []\<rparr>"
proof -
  have c: "cfg_y \<noteq> PyNone" "as_data cfg_y = Inr [(''y'', int_obj 44 9), (''verbose'', int_obj 45 0)]"
    "distinct (map fst [(''y'', int_obj 44 9), (''verbose'', int_obj 45 0)])"
    by (simp_all add: cfg_y_def dict_obj_def)
  have reg: "map (\<lambda>e. map fst (model e)) (tunable [''x''] None ''include'' [] [] simple_fn []) = [[''x'']]"
    by code_simp
  have flt: "filter (\<lambda>(k, v). k \<in> set (map p_name (fn_signature simple_fn)))
               [(''y'', int_obj 44 9), (''verbose'', int_obj 45 0)] = [(''y'', int_obj 44 9)]"
    by (simp add: simple_fn_def)
  have run: "call_with simple_fn [] [(''y'', int_obj 44 9)] []
       = Inr \<lparr>bound = [(''y'', int_obj 44 9), (''x'', int_obj 30 1)], star_args = [], star_kwargs = []\<rparr>"
    by code_simp
  show ?thesis
    using cfg_override_filters_by_signature [OF c,
        where f = simple_fn and namespace_arg = None and active = example_cfg and args = "[]"
          and kwargs = "[]" and reg = "tunable [''x''] None ''include'' [] [] simple_fn []"]
      reg flt run
    by simp
qed

subsection \<open>Missing namespaces and unknown keys\<close>




subsection \<open>Two namespaces, one of them the root\<close>

text \<open>
  Two namespaces that both resolve are merged: \<open>fit\<close> is registered under \<open>model\<close>
  and \<open>model.preprocess\<close>, and a call under the example configuration takes
  \<open>hidden_units\<close> from the one and \<open>dropna\<close> from the other.
\<close>

lemma two_resolving_namespaces_are_merged:
  "map namespace fit_registry = [''model'', ''model.preprocess'']
   \<and> map (\<lambda>e. fn_id (fn e)) fit_registry = [fn_id fit, fn_id fit]
   \<and> wrapper fit None fit_registry example_cfg [] PyNone []
       = Inr \<lparr>bound = [(''hidden_units'', int_obj 4 256), (''dropna'', int_obj 6 0)],
              star_args = [], star_kwargs = []\<rparr>"
  by code_simp

text \<open>
  C2. Decorating \<open>build_model\<close> registers two entries owned by it, for the namespaces
  \<open>model\<close> and \<open>""\<close>. Under an active configuration that has both a \<open>model\<close> section
  (\<open>hidden_units = 256\<close>) and a top-level \<open>root_param = 9\<close>, the call merges the value
  of the \<open>model\<close> namespace only: \<open>root_param\<close> keeps its default 7, because the root
  namespace resolves to \<open>None\<close>.
\<close>

theorem root_namespace_values_are_not_merged:
  "map namespace build_model_registry = [''model'', []]
   \<and> map (\<lambda>e. fn_id (fn e)) build_model_registry = [fn_id build_model, fn_id build_model]
   \<and> map (\<lambda>e. map fst (model e)) build_model_registry = [[''hidden_units''], [''root_param'']]
   \<and> py_getattr example_cfg ''root_param'' PyNone = int_obj 5 9
   \<and> resolve_nested_section example_cfg ''model'' = model_section
   \<and> wrapper build_model None build_model_registry example_cfg [] PyNone []
       = Inr \<lparr>bound = [(''hidden_units'', int_obj 4 256), (''root_param'', int_obj 1 7)],
              star_args = [], star_kwargs = []\<rparr>"
  by code_simp

end
